theory Spec2Isabelle
  imports Complex_Main
begin

section \<open>Email automation: a shallow embedding of \<open>main.py\<close>\<close>

text \<open>
  The program reads contacts from a CSV file, validates each row, renders a subject and a
  body from a template, dispatches the message (preview or SMTP with retry) and appends one
  outcome row per contact to a CSV log.

  Conventions of the embedding.
  \<^item> A Python \<open>str\<close> is a list of Unicode code points (\<open>nat list\<close>); \<open>u ''abc''\<close> is the
    literal. Character classes (\<open>isspace\<close>, line boundaries) are the sets CPython uses.
  \<^item> A dictionary \<open>Dict[str, str]\<close> is a map from strings to strings.
  \<^item> An exception that leaves a function is a value \<open>Inl e\<close> of a sum type.
  \<^item> Python floats are idealised as real numbers of magnitude below \<open>float_limit\<close>, which
    is \<open>2 ^ 1024\<close>; a power that reaches this bound raises \<open>OverflowError\<close>. Infinities
    and not-a-number are not values of the model.
  \<^item> The file system is a map from paths to file contents (text), with the paths that
    exist but cannot be read kept apart; the calls of \<open>time.sleep\<close>, the SMTP connections
    and the dry-run preview are recorded, in order, in a trace of events. Diagnostic
    logger lines are not part of the model.
  \<^item> What the libraries \<open>email.message\<close>, \<open>smtplib\<close> and \<open>csv\<close> answer is a parameter of
    the function that calls them.
\<close>

subsection \<open>Strings\<close>

type_synonym pystr = "nat list"

abbreviation u :: "string \<Rightarrow> pystr" where
  "u s \<equiv> map of_char s"

text \<open>\<open>str.isspace\<close> for one code point: the whitespace set of CPython.\<close>

definition isspace :: "nat \<Rightarrow> bool" where
  "isspace c \<longleftrightarrow>
     (9 \<le> c \<and> c \<le> 13) \<or> (28 \<le> c \<and> c \<le> 32) \<or> c = 133 \<or> c = 160 \<or> c = 5760 \<or>
     (8192 \<le> c \<and> c \<le> 8202) \<or> c = 8232 \<or> c = 8233 \<or> c = 8239 \<or> c = 8287 \<or> c = 12288"

definition lstrip :: "pystr \<Rightarrow> pystr" where
  "lstrip s = dropWhile isspace s"

definition rstrip :: "pystr \<Rightarrow> pystr" where
  "rstrip s = rev (dropWhile isspace (rev s))"

definition strip :: "pystr \<Rightarrow> pystr" where
  "strip s = rstrip (lstrip s)"

text \<open>
  \<open>str.lower\<close>: the ASCII capitals are mapped to small letters. Other code points are left
  as they are; no code point outside ASCII lowers to one of the letters of \<open>subject:\<close>, the
  only text a lowered string is compared with.
\<close>

definition lower :: "pystr \<Rightarrow> pystr" where
  "lower s = map (\<lambda>c. if 65 \<le> c \<and> c \<le> 90 then c + 32 else c) s"

definition startswith :: "pystr \<Rightarrow> pystr \<Rightarrow> bool" where
  "startswith s p \<longleftrightarrow> take (length p) s = p"

text \<open>\<open>sep.join(xs)\<close>.\<close>

fun join :: "pystr \<Rightarrow> pystr list \<Rightarrow> pystr" where
  "join sep [] = []"
| "join sep [x] = x"
| "join sep (x # y # ys) = x @ sep @ join sep (y # ys)"

text \<open>
  \<open>str.splitlines()\<close>: a line ends at \<open>\n\<close>, \<open>\r\<close>, \<open>\r\n\<close>, \<open>\v\<close>, \<open>\f\<close>, \<open>\x1c\<close>, \<open>\x1d\<close>,
  \<open>\x1e\<close>, \<open>\x85\<close>, U+2028 or U+2029; the line ends are dropped, and a text that ends with one
  has no empty last line. \<open>cur\<close> is the line read so far.
\<close>

definition is_linebreak :: "nat \<Rightarrow> bool" where
  "is_linebreak c \<longleftrightarrow> (10 \<le> c \<and> c \<le> 13) \<or> (28 \<le> c \<and> c \<le> 30) \<or> c = 133 \<or> c = 8232 \<or> c = 8233"

fun splitlines_from :: "pystr \<Rightarrow> pystr \<Rightarrow> pystr list" where
  "splitlines_from cur [] = (if cur = [] then [] else [cur])"
| "splitlines_from cur [c] = (if is_linebreak c then [cur] else [cur @ [c]])"
| "splitlines_from cur (c # d # cs) =
     (if c = 13 \<and> d = 10 then cur # splitlines_from [] cs
      else if is_linebreak c then cur # splitlines_from [] (d # cs)
      else splitlines_from (cur @ [c]) (d # cs))"

definition splitlines :: "pystr \<Rightarrow> pystr list" where
  "splitlines s = splitlines_from [] s"

text \<open>\<open>str(n)\<close> for an integer: its decimal digits, with a sign when negative.\<close>

fun str_nat :: "nat \<Rightarrow> pystr" where
  "str_nat n = (if n < 10 then [48 + n] else str_nat (n div 10) @ [48 + n mod 10])"

declare str_nat.simps [simp del]

definition str_int :: "int \<Rightarrow> pystr" where
  "str_int i = (if i < 0 then 45 # str_nat (nat (- i)) else str_nat (nat i))"

subsection \<open>Regular expressions\<close>

text \<open>
  The fragment of \<open>re\<close> that \<open>EMAIL_REGEX\<close> uses: a literal character, a negated
  one-character class \<open>[^c]\<close> (it matches every other code point, a newline included),
  concatenation and repetition. The matcher decides a whole-string match by derivatives.
\<close>

datatype rexp =
    Fail
  | Empty
  | Chr nat
  | NotChr nat
  | Cat rexp rexp
  | Or rexp rexp
  | Rep rexp

text \<open>\<open>r+\<close> is \<open>r r*\<close>.\<close>

abbreviation Many1 :: "rexp \<Rightarrow> rexp" where
  "Many1 r \<equiv> Cat r (Rep r)"

fun nullable :: "rexp \<Rightarrow> bool" where
  "nullable Fail = False"
| "nullable Empty = True"
| "nullable (Chr a) = False"
| "nullable (NotChr a) = False"
| "nullable (Cat r s) = (nullable r \<and> nullable s)"
| "nullable (Or r s) = (nullable r \<or> nullable s)"
| "nullable (Rep r) = True"

fun deriv :: "nat \<Rightarrow> rexp \<Rightarrow> rexp" where
  "deriv c Fail = Fail"
| "deriv c Empty = Fail"
| "deriv c (Chr a) = (if c = a then Empty else Fail)"
| "deriv c (NotChr a) = (if c = a then Fail else Empty)"
| "deriv c (Cat r s) =
     (if nullable r then Or (Cat (deriv c r) s) (deriv c s) else Cat (deriv c r) s)"
| "deriv c (Or r s) = Or (deriv c r) (deriv c s)"
| "deriv c (Rep r) = Cat (deriv c r) (Rep r)"

fun fullmatch :: "rexp \<Rightarrow> pystr \<Rightarrow> bool" where
  "fullmatch r [] = nullable r"
| "fullmatch r (c # cs) = fullmatch (deriv c r) cs"

text \<open>
  \<open>re.compile("^" r "$").match(s)\<close>: \<open>^\<close> anchors the match at the start; \<open>$\<close> (without
  \<open>re.MULTILINE\<close>) holds at the end of the string and also just before a newline that is
  the last character.
\<close>

definition re_match :: "rexp \<Rightarrow> pystr \<Rightarrow> bool" where
  "re_match r s \<longleftrightarrow> fullmatch r s \<or> (s \<noteq> [] \<and> last s = 10 \<and> fullmatch r (butlast s))"

text \<open>\<open>EMAIL_REGEX = re.compile(r"^[^@]+@[^@]+\.[^@]+$")\<close>; \<open>@\<close> is 64 and \<open>.\<close> is 46.\<close>

definition EMAIL_REGEX :: rexp where
  "EMAIL_REGEX =
     Cat (Many1 (NotChr 64)) (Cat (Chr 64) (Cat (Many1 (NotChr 64)) (Cat (Chr 46) (Many1 (NotChr 64)))))"

subsection \<open>Row validation\<close>

type_synonym row = "pystr \<rightharpoonup> pystr"

text \<open>The loop over \<open>required_fields\<close>; \<open>errors\<close> is the list built so far.\<close>

fun check_required :: "row \<Rightarrow> pystr list \<Rightarrow> pystr list \<Rightarrow> pystr list" where
  "check_required row [] errors = errors"
| "check_required row (field # fields) errors =
     check_required row fields
       (if (case row field of None \<Rightarrow> True | Some v \<Rightarrow> strip v = [])
        then errors @ [u ''Missing required field '' @ [39] @ field @ [39]]
        else errors)"

definition validate_row :: "row \<Rightarrow> pystr list \<Rightarrow> bool \<times> pystr list" where
  "validate_row row required_fields =
     (let errors = check_required row required_fields [];
          email = strip (case row (u ''Email'') of None \<Rightarrow> [] | Some v \<Rightarrow> v);
          errors =
            (if email = [] then errors @ [u ''Email is empty'']
             else if \<not> re_match EMAIL_REGEX email
             then errors @ [u ''Invalid email address: '' @ [39] @ email @ [39]]
             else errors)
      in (length errors = 0, errors))"

subsection \<open>Exceptions\<close>

text \<open>
  The exceptions that leave a function of the program. \<open>KeyError\<close> carries the missing key,
  \<open>ValueError\<close> and \<open>FileNotFoundError\<close> their message (\<open>str(e)\<close>), \<open>SystemExit\<close> the exit
  status, \<open>OSError\<close> the message of a failed \<open>open\<close>. \<open>AttributeError\<close> is what \<open>v.strip()\<close>
  raises on a list and what \<open>email.message\<close> raises on some addresses. \<open>OutsideModel\<close>
  marks an input on which the embedding of a library function does not say what Python
  does.
\<close>

datatype py_error =
    KeyError pystr
  | ValueError pystr
  | IndexError
  | AttributeError
  | FileNotFoundError pystr
  | OSError pystr
  | OverflowError
  | SystemExit int
  | OutsideModel

fun str_of_error :: "py_error \<Rightarrow> pystr" where
  "str_of_error (KeyError k) = [39] @ k @ [39]"
| "str_of_error (ValueError m) = m"
| "str_of_error (FileNotFoundError m) = m"
| "str_of_error (OSError m) = m"
| "str_of_error e = []"

subsection \<open>Template rendering\<close>

text \<open>
  \<open>str.format\<close> with keyword arguments only. \<open>{{\<close> and \<open>}}\<close> are literal braces; \<open>{name}\<close>
  is replaced by the value of \<open>name\<close>. A replacement field that uses a conversion (\<open>!\<close>), a
  format specification (\<open>:\<close>), an attribute (\<open>.\<close>) or an index (\<open>[\<close>), or a character
  outside ASCII, is outside the model; so is a numeric field of more than 18 digits.

  \<open>scan_field name s\<close> reads a field name up to the closing brace and returns it with
  the text after the brace.
\<close>

fun scan_field :: "pystr \<Rightarrow> pystr \<Rightarrow> py_error + (pystr \<times> pystr)" where
  "scan_field name [] = Inl (ValueError (u ''expected '' @ [39] @ u ''}'' @ [39] @ u '' before end of string''))"
| "scan_field name (c # cs) =
     (if c = 125 then Inr (name, cs)
      else if c = 123 then Inl (ValueError (u ''unexpected '' @ [39] @ u ''{'' @ [39] @ u '' in field name''))
      else if c = 33 \<or> c = 58 \<or> c = 46 \<or> c = 91 \<or> 128 \<le> c then Inl OutsideModel
      else scan_field (name @ [c]) cs)"

lemma scan_field_shorter: "scan_field name s = Inr (n, rest) \<Longrightarrow> length rest < length s"
proof (induction s arbitrary: name)
  case Nil
  then show ?case by simp
next
  case (Cons c cs)
  show ?case
  proof (cases "c = 125")
    case True
    with Cons.prems show ?thesis by simp
  next
    case False
    with Cons.prems have "scan_field (name @ [c]) cs = Inr (n, rest)"
      by (simp split: if_splits)
    from Cons.IH[OF this] show ?thesis by simp
  qed
qed

text \<open>
  The value of a field. With no positional argument an empty field name (automatic
  numbering) and a numeric one raise \<open>IndexError\<close>; any other name is looked up by \<open>lookup\<close>,
  which is \<open>kwargs[name]\<close> for \<open>format\<close> and \<open>mapping[name]\<close> for \<open>format_map\<close>.
\<close>

definition get_field :: "(pystr \<Rightarrow> py_error + pystr) \<Rightarrow> pystr \<Rightarrow> py_error + pystr" where
  "get_field lookup name =
     (if list_all (\<lambda>c. 48 \<le> c \<and> c \<le> 57) name
      then (if length name \<le> 18 then Inl IndexError else Inl OutsideModel)
      else lookup name)"

function vformat :: "(pystr \<Rightarrow> py_error + pystr) \<Rightarrow> pystr \<Rightarrow> py_error + pystr" where
  "vformat lookup [] = Inr []"
| "vformat lookup (c # cs) =
     (if c = 123 then
        (case cs of
           [] \<Rightarrow> Inl (ValueError (u ''Single '' @ [39] @ u ''{'' @ [39] @ u '' encountered in format string''))
         | d # ds \<Rightarrow>
             if d = 123 then (case vformat lookup ds of Inl e \<Rightarrow> Inl e | Inr out \<Rightarrow> Inr (123 # out))
             else (case scan_field [] cs of
                     Inl e \<Rightarrow> Inl e
                   | Inr (name, rest) \<Rightarrow>
                       (case get_field lookup name of
                          Inl e \<Rightarrow> Inl e
                        | Inr v \<Rightarrow>
                            (case vformat lookup rest of Inl e \<Rightarrow> Inl e | Inr out \<Rightarrow> Inr (v @ out)))))
      else if c = 125 then
        (case cs of
           [] \<Rightarrow> Inl (ValueError (u ''Single '' @ [39] @ u ''}'' @ [39] @ u '' encountered in format string''))
         | d # ds \<Rightarrow>
             if d = 125 then (case vformat lookup ds of Inl e \<Rightarrow> Inl e | Inr out \<Rightarrow> Inr (125 # out))
             else Inl (ValueError (u ''Single '' @ [39] @ u ''}'' @ [39] @ u '' encountered in format string'')))
      else (case vformat lookup cs of Inl e \<Rightarrow> Inl e | Inr out \<Rightarrow> Inr (c # out)))"
  by pat_completeness auto
termination
  by (relation "measure (\<lambda>(lookup, s). length s)")
    (auto dest: scan_field_shorter simp del: scan_field.simps)

text \<open>\<open>s.format(**kwargs)\<close>: a missing key raises \<open>KeyError\<close>.\<close>

definition str_format :: "pystr \<Rightarrow> row \<Rightarrow> py_error + pystr" where
  "str_format s kwargs =
     vformat (\<lambda>k. case kwargs k of None \<Rightarrow> Inl (KeyError k) | Some v \<Rightarrow> Inr v) s"

text \<open>
  \<open>s.format_map(DefaultDict(**kwargs))\<close>, where \<open>DefaultDict.__missing__\<close> returns the
  empty string.
\<close>

definition format_map_default :: "pystr \<Rightarrow> row \<Rightarrow> py_error + pystr" where
  "format_map_default s kwargs =
     vformat (\<lambda>k. case kwargs k of None \<Rightarrow> Inr [] | Some v \<Rightarrow> Inr v) s"

text \<open>\<open>for k in keys: safe_row.setdefault(k, "")\<close>.\<close>

fun setdefaults :: "row \<Rightarrow> pystr list \<Rightarrow> row" where
  "setdefaults safe_row [] = safe_row"
| "setdefaults safe_row (k # ks) =
     setdefaults (case safe_row k of None \<Rightarrow> safe_row(k \<mapsto> []) | Some v \<Rightarrow> safe_row) ks"

text \<open>
  \<open>render_template\<close>. The subject line is formatted outside the \<open>try\<close> block, so an
  exception of \<open>subject_line.format\<close> leaves the function; a \<open>KeyError\<close> of \<open>body.format\<close>
  is caught and the body is formatted again with the defaulting mapping. The dash of
  the default subject is U+2014 (8212).
\<close>

definition render_template :: "pystr \<Rightarrow> row \<Rightarrow> py_error + (pystr \<times> pystr)" where
  "render_template template row =
     (let safe_row = setdefaults row [u ''Name'', u ''Title'', u ''Company'', u ''SNo''];
          lines = splitlines template
      in case (if lines \<noteq> [] \<and> startswith (lower (hd lines)) (u ''subject:'')
               then (case str_format (strip (drop (length (u ''subject:'')) (hd lines))) safe_row of
                       Inl e \<Rightarrow> Inl e
                     | Inr subject \<Rightarrow> Inr (subject, lstrip (join [10] (tl lines))))
               else Inr (u ''Hello '' @ (case safe_row (u ''Name'') of None \<Rightarrow> [] | Some v \<Rightarrow> v)
                           @ u '' '' @ [8212] @ u '' Opportunity to connect'',
                         template)) of
           Inl e \<Rightarrow> Inl e
         | Inr (subject, body) \<Rightarrow>
             (case str_format body safe_row of
                Inr body_rendered \<Rightarrow> Inr (subject, body_rendered)
              | Inl (KeyError missing) \<Rightarrow>
                  (case format_map_default body safe_row of
                     Inl e \<Rightarrow> Inl e
                   | Inr body_rendered \<Rightarrow> Inr (subject, body_rendered))
              | Inl e \<Rightarrow> Inl e))"

subsection \<open>The world: files and observable events\<close>

text \<open>
  \<open>files\<close> maps a path to the text of the file there: every path of its domain is a
  file that can be read and appended to. \<open>unreadable\<close> holds the paths that exist but
  that \<open>open(p, "rb")\<close> cannot read (a directory, a file without read permission), each
  with the text \<open>str(e)\<close> of the exception that \<open>open\<close> raises. A path in neither does not
  exist. \<open>trace\<close> lists, oldest first, the calls \<open>time.sleep(d)\<close> that returned, the SMTP
  connections (with the attempt number the program logs) and the previews of a dry
  run.
\<close>

datatype event =
    Sleep real
  | SmtpConnect nat
  | Preview pystr pystr pystr "(pystr \<times> bool) option"

record world =
  files :: "pystr \<rightharpoonup> pystr"
  unreadable :: "pystr \<rightharpoonup> pystr"
  trace :: "event list"

text \<open>\<open>os.path.exists(p)\<close>.\<close>

definition path_exists :: "world \<Rightarrow> pystr \<Rightarrow> bool" where
  "path_exists w p \<longleftrightarrow> files w p \<noteq> None \<or> unreadable w p \<noteq> None"

definition emit :: "event \<Rightarrow> world \<Rightarrow> world" where
  "emit e w = w\<lparr>trace := trace w @ [e]\<rparr>"

text \<open>
  \<open>time.sleep(d)\<close>: a duration whose count of nanoseconds does not fit a signed 64-bit
  integer raises \<open>OverflowError\<close>, a negative one raises \<open>ValueError\<close>, and in both
  cases nothing is slept.
\<close>

definition sleep_limit :: real where
  "sleep_limit = 2 ^ 63 / 10 ^ 9"

definition py_sleep :: "real \<Rightarrow> world \<Rightarrow> py_error + world" where
  "py_sleep d w =
     (if \<bar>d\<bar> > sleep_limit then Inl OverflowError
      else if d < 0 then Inl (ValueError (u ''sleep length must be non-negative''))
      else Inr (emit (Sleep d) w))"

text \<open>
  \<open>x ** n\<close> for a float \<open>x\<close> and an integer \<open>n\<close> that is not negative: the power, or
  \<open>OverflowError\<close> when it is out of the range of a float.
\<close>

definition float_limit :: real where
  "float_limit = 2 ^ 1024"

definition float_pow :: "real \<Rightarrow> nat \<Rightarrow> py_error + real" where
  "float_pow x n = (if \<bar>x ^ n\<bar> \<ge> float_limit then Inl OverflowError else Inr (x ^ n))"

text \<open>The template file, or the built-in template when there is no such file.\<close>

definition default_template :: pystr where
  "default_template =
     u ''Subject: Connecting about potential opportunities at {Company}'' @ [10, 10] @
     u ''Hello {Name},'' @ [10, 10] @
     u ''I hope you'' @ [39] @ u ''re doing well. I'' @ [39] @
     u ''m reaching out because I'' @ [39] @ u ''m interested in roles'' @
     u '' at {Company} that match my background. I saw your profile as {Title} '' @
     u ''and thought you'' @ [39] @ u ''d be the best person to connect with.'' @ [10, 10] @
     u ''A quick snapshot: I'' @ [39] @
     u ''m a software engineer with experience in Java, Python and cloud technologies.'' @ [10, 10] @
     u ''I'' @ [39] @ u ''ve attached my resume for your review. If appropriate, I'' @ [39] @
     u ''d appreciate 10-15 minutes of your time for a quick chat.'' @ [10, 10] @
     u ''Thanks,'' @ [10] @
     u ''Your Name'' @ [10] @
     u ''Email: your.email@example.com'' @ [10]"

definition load_template :: "(pystr \<rightharpoonup> pystr) \<Rightarrow> pystr \<Rightarrow> pystr" where
  "load_template fs path = (case fs path of Some text \<Rightarrow> text | None \<Rightarrow> default_template)"

subsection \<open>Sending\<close>

text \<open>
  \<open>attach_file_to_message\<close> raises \<open>FileNotFoundError\<close> when the path does not exist;
  otherwise it opens and reads the file, and \<open>open\<close> raises for a path that cannot be
  read. The result is the data read.
\<close>

definition attach_file_to_message :: "world \<Rightarrow> pystr \<Rightarrow> py_error + pystr" where
  "attach_file_to_message w filepath =
     (if \<not> path_exists w filepath
      then Inl (FileNotFoundError (u ''Attachment not found: '' @ filepath))
      else (case unreadable w filepath of
              Some m \<Rightarrow> Inl (OSError m)
            | None \<Rightarrow> Inr (case files w filepath of Some data \<Rightarrow> data | None \<Rightarrow> [])))"

text \<open>
  What one pass through the \<open>try\<close> block of the send loop does: it completes
  (\<open>Delivered\<close>), raises \<open>smtplib.SMTPException\<close> or \<open>socket.error\<close> (\<open>Transient\<close>), or
  raises another exception (\<open>Unexpected\<close>); the text is \<open>str(e)\<close>. The SMTP server is a
  function from the attempt index, counted from 0, to that outcome.
\<close>

datatype smtp_outcome = Delivered | Transient pystr | Unexpected pystr

record send_args =
  gmail_user :: pystr
  gmail_app_pass :: pystr
  to_email :: pystr
  subject :: pystr
  body :: pystr
  attachment_path :: "pystr option"
  dry_run :: bool
  smtp_host :: pystr
  smtp_port :: int
  max_retries :: int
  retry_backoff :: real

text \<open>
  The \<open>while attempt < max_retries\<close> loop of \<open>send_email\<close>. The power and the sleep stand
  in the \<open>except\<close> handler, so an exception of theirs leaves \<open>send_email\<close>.
\<close>

function smtp_loop :: "(nat \<Rightarrow> smtp_outcome) \<Rightarrow> int \<Rightarrow> real \<Rightarrow> nat \<Rightarrow> world \<Rightarrow> py_error + ((bool \<times> pystr) \<times> world)" where
  "smtp_loop smtp maxr backoff attempt w =
     (if int attempt < maxr then
        (let w1 = emit (SmtpConnect (attempt + 1)) w in
         case smtp attempt of
           Delivered \<Rightarrow> Inr ((True, u ''sent''), w1)
         | Transient e \<Rightarrow>
             (let attempt' = attempt + 1 in
              if int attempt' \<ge> maxr
              then Inr ((False, u ''smtp error after '' @ str_int (int attempt') @ u '' attempts: '' @ e), w1)
              else (case float_pow backoff attempt' of
                      Inl err \<Rightarrow> Inl err
                    | Inr sleep_for \<Rightarrow>
                        (case py_sleep sleep_for w1 of
                           Inl err \<Rightarrow> Inl err
                         | Inr w2 \<Rightarrow> smtp_loop smtp maxr backoff attempt' w2)))
         | Unexpected e \<Rightarrow> Inr ((False, u ''unexpected error: '' @ e), w1))
      else Inr ((False, u ''max retries reached''), w))"
  by pat_completeness auto
termination
  by (relation "measure (\<lambda>(smtp, maxr, backoff, attempt, w). nat (maxr - int attempt))") auto

declare smtp_loop.simps [simp del]

text \<open>
  \<open>send_email\<close>. The message is built first (\<open>msg = EmailMessage()\<close>, the headers
  \<open>From\<close>, \<open>To\<close> and \<open>Subject\<close>, and \<open>set_content(body)\<close>); \<open>email.message\<close> raises there for
  some values, such as a header with a line break (\<open>ValueError\<close>) or an address it cannot
  parse (\<open>AttributeError\<close>), and the exception leaves \<open>send_email\<close>. \<open>message_error\<close> stands
  for the library: the exception, if any, that building the message from these four
  values raises. The message built is otherwise not modelled. \<open>if attachment_path:\<close>
  holds for a path that is neither \<open>None\<close> nor empty, and every exception of
  \<open>attach_file_to_message\<close> is caught and returned as an attachment error. The preview
  event stands for the block of preview lines of the dry run: recipient, subject, the
  body cut to 1000 characters, and the attachment path with whether it exists.
\<close>

definition send_email ::
  "(pystr \<Rightarrow> pystr \<Rightarrow> pystr \<Rightarrow> pystr \<Rightarrow> py_error option) \<Rightarrow> (nat \<Rightarrow> smtp_outcome) \<Rightarrow>
   send_args \<Rightarrow> world \<Rightarrow> py_error + ((bool \<times> pystr) \<times> world)" where
  "send_email message_error smtp a w =
     (case message_error (gmail_user a) (to_email a) (subject a) (body a) of
        Some err \<Rightarrow> Inl err
      | None \<Rightarrow>
          (case (case attachment_path a of
                   None \<Rightarrow> Inr []
                 | Some p \<Rightarrow> if p = [] then Inr [] else attach_file_to_message w p) of
             Inl e \<Rightarrow> Inr ((False, u ''Attachment error: '' @ str_of_error e), w)
           | Inr data \<Rightarrow>
               if dry_run a then
                 (let truncated_body =
                        (if length (body a) > 1000 then take 1000 (body a) @ u ''...'' else body a);
                      attachment =
                        (case attachment_path a of
                           None \<Rightarrow> None
                         | Some p \<Rightarrow> if p = [] then None else Some (p, path_exists w p))
                  in Inr ((True, u ''dry-run previewed''),
                          emit (Preview (to_email a) (subject a) truncated_body attachment) w))
               else smtp_loop smtp (max_retries a) (retry_backoff a) 0 w))"


subsection \<open>The run log\<close>

text \<open>
  \<open>csv.DictWriter\<close> with the default dialect: a field that holds a comma, a double quote,
  a carriage return or a line feed is written between double quotes with its double
  quotes doubled; the fields are joined by commas and the row ends with \<open>\r\n\<close>.
\<close>

definition csv_field :: "pystr \<Rightarrow> pystr" where
  "csv_field f =
     (if list_ex (\<lambda>c. c = 44 \<or> c = 34 \<or> c = 13 \<or> c = 10) f
      then [34] @ concat (map (\<lambda>c. if c = 34 then [34, 34] else [c]) f) @ [34]
      else f)"

definition csv_writerow :: "pystr list \<Rightarrow> pystr" where
  "csv_writerow cells = join [44] (map csv_field cells) @ [13, 10]"

definition log_header :: "pystr list" where
  "log_header = [u ''timestamp'', u ''SNo'', u ''Name'', u ''Email'', u ''Company'', u ''Title'',
                 u ''status'', u ''message'']"

definition row_get :: "row \<Rightarrow> pystr \<Rightarrow> pystr" where
  "row_get row k = (case row k of None \<Rightarrow> [] | Some v \<Rightarrow> v)"

text \<open>
  \<open>write_log_row\<close>: the file is opened in append mode, so what is written goes after the
  text the file holds. \<open>now\<close> is \<open>datetime.utcnow().isoformat()\<close>.
\<close>

definition write_log_row :: "pystr \<Rightarrow> pystr \<Rightarrow> row \<Rightarrow> pystr \<Rightarrow> pystr \<Rightarrow> world \<Rightarrow> world" where
  "write_log_row now path row status message w =
     (let exists = (files w path \<noteq> None);
          old = (case files w path of None \<Rightarrow> [] | Some text \<Rightarrow> text);
          opened = (if \<not> exists then old @ csv_writerow log_header else old);
          out = [now, row_get row (u ''SNo''), row_get row (u ''Name''), row_get row (u ''Email''),
                 row_get row (u ''Company''), row_get row (u ''Title''), status, message]
      in w\<lparr>files := (files w)(path \<mapsto> opened @ csv_writerow out)\<rparr>)"

subsection \<open>CSV ingestion\<close>

text \<open>\<open>raw.replace("\t", ",")\<close>.\<close>

definition tabs_to_commas :: "pystr \<Rightarrow> pystr" where
  "tabs_to_commas raw = map (\<lambda>c. if c = 9 then 44 else c) raw"

text \<open>
  \<open>re.sub(r",\s+", ",", s)\<close>: scanning from the left, a comma that is followed by
  whitespace is kept and the longest run of whitespace after it is dropped.
\<close>

function sub_comma_space :: "pystr \<Rightarrow> pystr" where
  "sub_comma_space [] = []"
| "sub_comma_space (c # cs) =
     (if c = 44 \<and> cs \<noteq> [] \<and> isspace (hd cs)
      then 44 # sub_comma_space (dropWhile isspace cs)
      else c # sub_comma_space cs)"
  by pat_completeness auto
termination
  by (relation "measure length") (auto simp: length_dropWhile_le less_Suc_eq_le)

definition normalize_csv :: "pystr \<Rightarrow> pystr" where
  "normalize_csv raw = sub_comma_space (tabs_to_commas raw)"

text \<open>
  A Python dictionary under construction keeps its keys in the order of their first
  insertion; storing under a key it has replaces the value in place.
\<close>

fun dict_set :: "('k \<times> 'v) list \<Rightarrow> 'k \<Rightarrow> 'v \<Rightarrow> ('k \<times> 'v) list" where
  "dict_set [] k v = [(k, v)]"
| "dict_set ((k', v') # d) k v = (if k' = k then (k, v) # d else (k', v') # dict_set d k v)"

text \<open>\<open>k.strip().replace("\\ufeff", "")\<close>; U+FEFF is 65279.\<close>

definition clean_key :: "pystr \<Rightarrow> pystr" where
  "clean_key k = filter (\<lambda>c. c \<noteq> 65279) (strip k)"

text \<open>
  One record of the reader as \<open>DictReader\<close> and the row comprehension turn it into a
  Contact Record. \<open>DictReader\<close> zips the field names with the values, stores the values
  beyond the field names as a list under the key \<open>None\<close>, and gives a missing value the
  value \<open>None\<close>. The comprehension then cleans every key again (an empty key stays empty)
  and strips every value; \<open>None\<close> becomes the empty string, and the list under the key
  \<open>None\<close> has no \<open>strip\<close>, which raises \<open>AttributeError\<close>.
\<close>

definition dict_row :: "pystr list \<Rightarrow> pystr list \<Rightarrow> py_error + row" where
  "dict_row fieldnames record =
     (if length record > length fieldnames then Inl AttributeError
      else
        (let vals = map Some record @ replicate (length fieldnames - length record) None;
             d = foldl (\<lambda>d (k, v). dict_set d k v) [] (zip fieldnames vals)
         in Inr (foldl (\<lambda>m (k, v). m((if k = [] then [] else clean_key k) \<mapsto>
                                       (case v of None \<Rightarrow> [] | Some x \<Rightarrow> strip x)))
                   Map.empty d)))"

fun dict_rows :: "pystr list \<Rightarrow> pystr list list \<Rightarrow> py_error + row list" where
  "dict_rows fieldnames [] = Inr []"
| "dict_rows fieldnames (record # records) =
     (if record = [] then dict_rows fieldnames records
      else (case dict_row fieldnames record of
              Inl e \<Rightarrow> Inl e
            | Inr r \<Rightarrow> (case dict_rows fieldnames records of Inl e \<Rightarrow> Inl e | Inr rs \<Rightarrow> Inr (r # rs))))"

text \<open>
  \<open>read_csv\<close>. \<open>csv_reader\<close> stands for the \<open>csv\<close> module: the records (lists of fields)
  that \<open>csv.reader\<close> yields for a text, read with the delimiter that \<open>csv.Sniffer\<close> finds
  in its first 8192 characters, or with a comma when the sniffer fails. The file is
  decoded as \<open>utf-8-sig\<close>, which drops a leading U+FEFF.
\<close>

definition read_csv :: "(pystr \<Rightarrow> pystr list list) \<Rightarrow> (pystr \<rightharpoonup> pystr) \<Rightarrow> pystr \<Rightarrow> py_error + row list" where
  "read_csv csv_reader fs path =
     (case fs path of
        None \<Rightarrow> Inl (FileNotFoundError (u ''CSV file not found: '' @ path))
      | Some text \<Rightarrow>
          (let raw = (case text of [] \<Rightarrow> [] | c # cs \<Rightarrow> if c = 65279 then cs else text);
               normalized = normalize_csv raw
           in case csv_reader normalized of
                [] \<Rightarrow> Inr []
              | header # records \<Rightarrow> dict_rows (map clean_key header) records))"

text \<open>
  The single-space-after-comma style of a text: the same text with one space written
  after every comma.
\<close>

definition space_after_commas :: "pystr \<Rightarrow> pystr" where
  "space_after_commas s = concat (map (\<lambda>c. if c = 44 then [44, 32] else [c]) s)"

subsection \<open>The orchestrator\<close>

record args =
  arg_csv :: pystr
  arg_resume :: pystr
  arg_template :: pystr
  arg_send :: bool
  arg_emails_per_minute :: real
  arg_log :: pystr
  arg_max_retries :: int
  arg_config :: pystr

text \<open>
  What the run reads from outside: the two environment variables, the SMTP server's
  answer to attempt \<open>k\<close> of the message of contact number \<open>i\<close> (\<open>smtp_server i k\<close>), the
  clock reading when the log row of contact number \<open>i\<close> is written, the \<open>csv\<close> module, and
  the exception, if any, that \<open>email.message\<close> raises when a message is built.
\<close>

record env =
  GMAIL_USER :: "pystr option"
  GMAIL_APP_PASS :: "pystr option"
  smtp_server :: "nat \<Rightarrow> nat \<Rightarrow> smtp_outcome"
  utcnow :: "nat \<Rightarrow> pystr"
  csv_module :: "pystr \<Rightarrow> pystr list list"
  email_module :: "pystr \<Rightarrow> pystr \<Rightarrow> pystr \<Rightarrow> pystr \<Rightarrow> py_error option"

record run_state =
  total :: nat
  sent_count :: nat
  failed_count :: nat
  skipped_count :: nat
  rs_world :: world

definition required_fields_main :: "pystr list" where
  "required_fields_main = [u ''SNo'', u ''Name'', u ''Email'', u ''Title'', u ''Company'']"

text \<open>\<open>x or default\<close> for an optional string.\<close>

definition or_else :: "pystr option \<Rightarrow> pystr \<Rightarrow> pystr" where
  "or_else x d = (case x of None \<Rightarrow> d | Some v \<Rightarrow> if v = [] then d else v)"

text \<open>\<open>interval = 60.0 / max(args.emails_per_minute, 0.1)\<close>.\<close>

definition interval :: "args \<Rightarrow> real" where
  "interval a = 60 / max (arg_emails_per_minute a) (1 / 10)"

text \<open>
  The keyword arguments of the call of \<open>send_email\<close> in \<open>main\<close>: the attachment path is
  passed only when the file exists (\<open>args.resume if os.path.exists(args.resume) else
  None\<close>), and \<open>retry_backoff\<close>, \<open>smtp_host\<close> and \<open>smtp_port\<close> are left at their
  defaults.
\<close>

definition dispatch_args :: "env \<Rightarrow> args \<Rightarrow> world \<Rightarrow> pystr \<Rightarrow> pystr \<Rightarrow> pystr \<Rightarrow> send_args" where
  "dispatch_args e a w email subj bod =
     \<lparr>gmail_user = or_else (GMAIL_USER e) (u ''dry-run@example.com''),
      gmail_app_pass = or_else (GMAIL_APP_PASS e) [],
      to_email = email,
      subject = subj,
      body = bod,
      attachment_path = (if path_exists w (arg_resume a) then Some (arg_resume a) else None),
      dry_run = (\<not> arg_send a),
      smtp_host = u ''smtp.gmail.com'',
      smtp_port = 587,
      max_retries = arg_max_retries a,
      retry_backoff = 2\<rparr>"

text \<open>
  The body of the loop \<open>for raw_row in rows\<close>, for one contact; \<open>n\<close> is \<open>len(rows)\<close>. An
  invalid row is logged as skipped and the loop goes on with the next row (\<open>continue\<close>),
  before the rate-limit sleep at the end of the body. An exception of \<open>render_template\<close>
  or of \<open>send_email\<close> is not caught.
\<close>

definition process_row :: "env \<Rightarrow> args \<Rightarrow> pystr \<Rightarrow> nat \<Rightarrow> row \<Rightarrow> run_state \<Rightarrow> py_error + run_state" where
  "process_row e a template_text n row st =
     (let tot = total st + 1;
          (is_valid, errors) = validate_row row required_fields_main
      in if \<not> is_valid then
           Inr (st\<lparr>total := tot, skipped_count := skipped_count st + 1,
                   rs_world := write_log_row (utcnow e tot) (arg_log a) row (u ''skipped'')
                                 (join (u ''; '') errors) (rs_world st)\<rparr>)
         else
           (case render_template template_text row of
              Inl err \<Rightarrow> Inl err
            | Inr (subj, bod) \<Rightarrow>
                (case row (u ''Email'') of
                   None \<Rightarrow> Inl (KeyError (u ''Email''))
                 | Some email \<Rightarrow>
                     (let w = rs_world st in
                      case send_email (email_module e) (smtp_server e tot)
                             (dispatch_args e a w email subj bod) w of
                        Inl err \<Rightarrow> Inl err
                      | Inr ((success, message), w1) \<Rightarrow>
                          (let st1 =
                                 (if success then
                                    (if arg_send a
                                     then st\<lparr>total := tot, sent_count := sent_count st + 1,
                                             rs_world := write_log_row (utcnow e tot) (arg_log a) row
                                                           (u ''sent'') message w1\<rparr>
                                     else st\<lparr>total := tot,
                                             rs_world := write_log_row (utcnow e tot) (arg_log a) row
                                                           (u ''previewed'') message w1\<rparr>)
                                  else st\<lparr>total := tot, failed_count := failed_count st + 1,
                                          rs_world := write_log_row (utcnow e tot) (arg_log a) row
                                                        (u ''failed'') message w1\<rparr>)
                           in if tot < n
                              then (case py_sleep (interval a) (rs_world st1) of
                                      Inl err \<Rightarrow> Inl err
                                    | Inr w2 \<Rightarrow> Inr (st1\<lparr>rs_world := w2\<rparr>))
                              else Inr st1)))))"

fun process_rows :: "env \<Rightarrow> args \<Rightarrow> pystr \<Rightarrow> nat \<Rightarrow> row list \<Rightarrow> run_state \<Rightarrow> py_error + run_state" where
  "process_rows e a template_text n [] st = Inr st"
| "process_rows e a template_text n (raw_row # rest) st =
     (case process_row e a template_text n raw_row st of
        Inl err \<Rightarrow> Inl err
      | Inr st' \<Rightarrow> process_rows e a template_text n rest st')"

text \<open>
  \<open>main\<close>, after the arguments have been parsed. Live sending without credentials
  and a failure to read the contacts end the run with \<open>sys.exit(1)\<close>; a template path
  that exists and cannot be read raises out of \<open>load_template\<close>.
\<close>

definition main :: "env \<Rightarrow> args \<Rightarrow> world \<Rightarrow> py_error + run_state" where
  "main e a w =
     (if arg_send a \<and> (or_else (GMAIL_USER e) [] = [] \<or> or_else (GMAIL_APP_PASS e) [] = [])
      then Inl (SystemExit 1)
      else
        (case unreadable w (arg_template a) of
           Some m \<Rightarrow> Inl (OSError m)
         | None \<Rightarrow>
             (let template_text = load_template (files w) (arg_template a)
              in case (case unreadable w (arg_csv a) of
                         Some m \<Rightarrow> Inl (OSError m)
                       | None \<Rightarrow> read_csv (csv_module e) (files w) (arg_csv a)) of
                   Inl err \<Rightarrow> Inl (SystemExit 1)
                 | Inr rows \<Rightarrow>
                     process_rows e a template_text (length rows) rows
                       \<lparr>total = 0, sent_count = 0, failed_count = 0, skipped_count = 0,
                        rs_world = w\<rparr>)))"

subsection \<open>Observations and a sample run\<close>

text \<open>The durations of the calls of \<open>time.sleep\<close> in a trace, in order.\<close>

definition slept :: "event list \<Rightarrow> real list" where
  "slept tr = concat (map (\<lambda>ev. case ev of Sleep d \<Rightarrow> [d] | _ \<Rightarrow> []) tr)"

text \<open>
  A dry run with the command-line defaults, no credentials, no file on disk, a library
  that builds every message, and one well-formed contact.
\<close>

definition demo_env :: env where
  "demo_env = \<lparr>GMAIL_USER = None, GMAIL_APP_PASS = None, smtp_server = (\<lambda>i k. Delivered),
               utcnow = (\<lambda>i. u ''2024-01-02T03:04:05''), csv_module = (\<lambda>s. []),
               email_module = (\<lambda>user to subj bod. None)\<rparr>"

definition demo_args :: args where
  "demo_args = \<lparr>arg_csv = u ''sample_hr.csv'', arg_resume = u ''resume.pdf'',
                arg_template = u ''email_template.txt'', arg_send = False,
                arg_emails_per_minute = 20, arg_log = u ''send_log.csv'', arg_max_retries = 3,
                arg_config = u ''config.example.json''\<rparr>"

definition demo_row :: row where
  "demo_row = [u ''SNo'' \<mapsto> u ''1'', u ''Name'' \<mapsto> u ''Ann'', u ''Email'' \<mapsto> u ''ann@x.org'',
               u ''Title'' \<mapsto> u ''CTO'', u ''Company'' \<mapsto> u ''Acme'']"

definition demo_start :: run_state where
  "demo_start = \<lparr>total = 0, sent_count = 0, failed_count = 0, skipped_count = 0,
                 rs_world = \<lparr>files = Map.empty, unreadable = Map.empty, trace = []\<rparr>\<rparr>"


subsection \<open>The language of a regular expression\<close>

text \<open>
  The strings a regular expression denotes. The matcher above is what the program runs;
  the language is what the proofs compare it with.
\<close>

inductive_set star :: "pystr set \<Rightarrow> pystr set" for L :: "pystr set" where
  star_nil: "[] \<in> star L"
| star_app: "x \<in> L \<Longrightarrow> y \<in> star L \<Longrightarrow> x @ y \<in> star L"

fun lang :: "rexp \<Rightarrow> pystr set" where
  "lang Fail = {}"
| "lang Empty = {[]}"
| "lang (Chr a) = {[a]}"
| "lang (NotChr a) = {[c] | c. c \<noteq> a}"
| "lang (Cat r s) = {x @ y | x y. x \<in> lang r \<and> y \<in> lang s}"
| "lang (Or r s) = lang r \<union> lang s"
| "lang (Rep r) = star (lang r)"

section \<open>Properties\<close>

subsection \<open>The matcher decides the language\<close>

lemma nullable_lang: "nullable r \<longleftrightarrow> [] \<in> lang r"
  by (induction r) (auto intro: star.intros)

lemma star_cons_split:
  "w \<in> star L \<Longrightarrow> w = c # v \<Longrightarrow> \<exists>x y. c # x \<in> L \<and> y \<in> star L \<and> v = x @ y"
proof (induction arbitrary: v rule: star.induct)
  case star_nil
  then show ?case by simp
next
  case (star_app x y)
  show ?case
  proof (cases x)
    case Nil
    with star_app show ?thesis by simp
  next
    case (Cons a x')
    with star_app.prems have "a = c" "v = x' @ y" by simp_all
    with Cons star_app.hyps show ?thesis by blast
  qed
qed

lemma deriv_lang: "w \<in> lang (deriv c r) \<longleftrightarrow> c # w \<in> lang r"
proof (induction r arbitrary: w)
  case (Cat r s)
  show ?case
  proof
    assume "w \<in> lang (deriv c (Cat r s))"
    then consider (l) x y where "w = x @ y" "x \<in> lang (deriv c r)" "y \<in> lang s"
      | (r) "nullable r" "w \<in> lang (deriv c s)"
      by (auto split: if_splits)
    then show "c # w \<in> lang (Cat r s)"
    proof cases
      case l
      then have "c # x \<in> lang r" using Cat.IH(1) by simp
      with l show ?thesis by (metis (mono_tags, lifting) append_Cons lang.simps(5) mem_Collect_eq)
    next
      case r
      then have "[] \<in> lang r" "c # w \<in> lang s" using Cat.IH(2) by (simp_all add: nullable_lang)
      then show ?thesis by (metis (mono_tags, lifting) append_Nil lang.simps(5) mem_Collect_eq)
    qed
  next
    assume "c # w \<in> lang (Cat r s)"
    then obtain x y where xy: "c # w = x @ y" "x \<in> lang r" "y \<in> lang s" by auto
    show "w \<in> lang (deriv c (Cat r s))"
    proof (cases x)
      case Nil
      with xy have "nullable r" "w \<in> lang (deriv c s)" using Cat.IH(2) by (simp_all add: nullable_lang)
      then show ?thesis by simp
    next
      case (Cons a x')
      with xy have "x' \<in> lang (deriv c r)" "w = x' @ y" using Cat.IH(1) by simp_all
      with xy(3) show ?thesis by auto
    qed
  qed
next
  case (Rep r)
  show ?case
  proof
    assume "w \<in> lang (deriv c (Rep r))"
    then obtain x y where "w = x @ y" "x \<in> lang (deriv c r)" "y \<in> star (lang r)" by auto
    then have "c # x \<in> lang r" "y \<in> star (lang r)" "c # w = (c # x) @ y" using Rep.IH by simp_all
    then show "c # w \<in> lang (Rep r)" by (metis lang.simps(7) star.star_app)
  next
    assume "c # w \<in> lang (Rep r)"
    then have "c # w \<in> star (lang r)" by simp
    from star_cons_split[OF this refl] obtain x y where
      "c # x \<in> lang r" "y \<in> star (lang r)" "w = x @ y" by blast
    then show "w \<in> lang (deriv c (Rep r))" using Rep.IH by auto
  qed
qed auto

lemma fullmatch_lang: "fullmatch r w \<longleftrightarrow> w \<in> lang r"
  by (induction w arbitrary: r) (simp_all add: nullable_lang deriv_lang)

lemma star_NotChr: "w \<in> star {[c] | c. c \<noteq> a} \<longleftrightarrow> a \<notin> set w"
proof
  assume "w \<in> star {[c] | c. c \<noteq> a}"
  then show "a \<notin> set w" by (induction rule: star.induct) auto
next
  assume "a \<notin> set w"
  then show "w \<in> star {[c] | c. c \<noteq> a}"
  proof (induction w)
    case Nil
    show ?case by (rule star.star_nil)
  next
    case (Cons b w)
    then have "[b] \<in> {[c] | c. c \<noteq> a}" "w \<in> star {[c] | c. c \<noteq> a}" by auto
    from star.star_app[OF this] show ?case by simp
  qed
qed

lemma lang_Many1_NotChr: "lang (Many1 (NotChr a)) = {w. w \<noteq> [] \<and> a \<notin> set w}"
proof (rule set_eqI)
  fix w
  show "w \<in> lang (Many1 (NotChr a)) \<longleftrightarrow> w \<in> {w. w \<noteq> [] \<and> a \<notin> set w}"
  proof (cases w)
    case Nil
    then show ?thesis by simp
  next
    case (Cons b v)
    have "b # v \<in> lang (Many1 (NotChr a)) \<longleftrightarrow> b \<noteq> a \<and> v \<in> star {[c] | c. c \<noteq> a}"
    proof
      assume "b # v \<in> lang (Many1 (NotChr a))"
      then show "b \<noteq> a \<and> v \<in> star {[c] | c. c \<noteq> a}" by auto
    next
      assume h: "b \<noteq> a \<and> v \<in> star {[c] | c. c \<noteq> a}"
      have "b # v = [b] @ v" by simp
      moreover have "[b] \<in> lang (NotChr a)" using h by simp
      moreover have "v \<in> lang (Rep (NotChr a))" using h by simp
      ultimately show "b # v \<in> lang (Many1 (NotChr a))"
        unfolding lang.simps(5) by blast
    qed
    then have "b # v \<in> lang (Many1 (NotChr a)) \<longleftrightarrow> b \<noteq> a \<and> a \<notin> set v"
      by (simp only: star_NotChr)
    with Cons show ?thesis by auto
  qed
qed

lemma lang_Cat_iff: "w \<in> lang (Cat r s) \<longleftrightarrow> (\<exists>x y. w = x @ y \<and> x \<in> lang r \<and> y \<in> lang s)"
  by auto

lemma lang_Cat_Chr: "w \<in> lang (Cat (Chr a) s) \<longleftrightarrow> (\<exists>y. w = a # y \<and> y \<in> lang s)"
  by auto

lemma fullmatch_EMAIL_REGEX:
  "fullmatch EMAIL_REGEX s \<longleftrightarrow>
     (\<exists>l d t. s = l @ [64] @ d @ [46] @ t \<and> l \<noteq> [] \<and> d \<noteq> [] \<and> t \<noteq> [] \<and>
        64 \<notin> set l \<and> 64 \<notin> set d \<and> 64 \<notin> set t)"
proof -
  let ?M = "{w::pystr. w \<noteq> [] \<and> 64 \<notin> set w}"
  have tail: "y \<in> lang (Cat (Many1 (NotChr 64)) (Cat (Chr 46) (Many1 (NotChr 64)))) \<longleftrightarrow>
      (\<exists>d t. y = d @ 46 # t \<and> d \<in> ?M \<and> t \<in> ?M)" for y
    unfolding lang_Cat_iff[of y] lang_Cat_Chr lang_Many1_NotChr by blast
  have "s \<in> lang EMAIL_REGEX \<longleftrightarrow>
      (\<exists>l y. s = l @ y \<and> l \<in> ?M \<and> (\<exists>z. y = 64 # z \<and> (\<exists>d t. z = d @ 46 # t \<and> d \<in> ?M \<and> t \<in> ?M)))"
    unfolding EMAIL_REGEX_def lang_Cat_iff[of s] lang_Cat_Chr tail lang_Many1_NotChr ..
  also have "\<dots> \<longleftrightarrow> (\<exists>l d t. s = l @ [64] @ d @ [46] @ t \<and> l \<noteq> [] \<and> d \<noteq> [] \<and> t \<noteq> [] \<and>
        64 \<notin> set l \<and> 64 \<notin> set d \<and> 64 \<notin> set t)"
    by (simp; blast)
  finally show ?thesis by (simp add: fullmatch_lang)
qed

lemma re_match_EMAIL_REGEX: "re_match EMAIL_REGEX s \<longleftrightarrow> fullmatch EMAIL_REGEX s"
proof -
  have "fullmatch EMAIL_REGEX s" if "s \<noteq> []" "last s = 10" "fullmatch EMAIL_REGEX (butlast s)"
  proof -
    from that(3) obtain l d t where b: "butlast s = l @ [64] @ d @ [46] @ t" "l \<noteq> []" "d \<noteq> []"
      "t \<noteq> []" "64 \<notin> set l" "64 \<notin> set d" "64 \<notin> set t"
      unfolding fullmatch_EMAIL_REGEX by blast
    have "s = butlast s @ [10]" using that(1,2) by (metis append_butlast_last_id)
    with b have "s = l @ [64] @ d @ [46] @ (t @ [10])" "t @ [10] \<noteq> []" "64 \<notin> set (t @ [10])"
      by simp_all
    with b show ?thesis unfolding fullmatch_EMAIL_REGEX by blast
  qed
  then show ?thesis unfolding re_match_def by blast
qed

subsection \<open>Row validation\<close>

lemma check_required_acc:
  "check_required row flds errors =
     errors @ map (\<lambda>f. u ''Missing required field '' @ [39] @ f @ [39])
       (filter (\<lambda>f. case row f of None \<Rightarrow> True | Some v \<Rightarrow> strip v = []) flds)"
  by (induction flds arbitrary: errors) auto

lemma validate_row_unfold:
  "validate_row row required_fields =
     (let email = strip (case row (u ''Email'') of None \<Rightarrow> [] | Some v \<Rightarrow> v);
          errors = check_required row required_fields [] @
            (if email = [] then [u ''Email is empty'']
             else if \<not> re_match EMAIL_REGEX email
             then [u ''Invalid email address: '' @ [39] @ email @ [39]]
             else [])
      in (errors = [], errors))"
  by (simp add: validate_row_def Let_def)

lemma EMAIL_shape_claimed:
  fixes e :: pystr
  assumes "e = l @ [64] @ d @ [46] @ t" "64 \<notin> set l" "64 \<notin> set d" "64 \<notin> set t"
  shows "e \<noteq> [] \<and> count_list e 64 = 1 \<and> 46 \<in> set (tl (dropWhile (\<lambda>c. c \<noteq> 64) e))"
proof -
  have "dropWhile (\<lambda>c. c \<noteq> 64) e = 64 # d @ 46 # t"
    using assms(1,2) by (auto simp: dropWhile_append)
  moreover have "count_list e 64 = 1"
    using assms by (simp add: count_list_0_iff)
  ultimately show ?thesis using assms(1) by simp
qed

text \<open>
  Claim C5, as the code has it. \<open>validate_row\<close> accepts the trimmed email exactly when it
  is \<open>l\<close>, an \<open>@\<close>, \<open>d\<close>, a dot and \<open>t\<close>, with \<open>l\<close>, \<open>d\<close> and \<open>t\<close> non-empty and free of \<open>@\<close>:
  one \<open>@\<close>, at least one character before it, and a dot after it that neither follows
  the \<open>@\<close> directly nor ends the address. Every email that is blank, has no \<open>@\<close> or several, or has no dot after
  the \<open>@\<close> yields an error of the row, whatever the required fields are.
\<close>

theorem validate_row_email_pattern:
  "(let email = strip (case row (u ''Email'') of None \<Rightarrow> [] | Some v \<Rightarrow> v) in
     (fst (validate_row row []) \<longleftrightarrow>
        (\<exists>l d t. email = l @ [64] @ d @ [46] @ t \<and> l \<noteq> [] \<and> d \<noteq> [] \<and> t \<noteq> [] \<and>
           64 \<notin> set l \<and> 64 \<notin> set d \<and> 64 \<notin> set t)) \<and>
     (\<not> (email \<noteq> [] \<and> count_list email 64 = 1 \<and> 46 \<in> set (tl (dropWhile (\<lambda>c. c \<noteq> 64) email)))
      \<longrightarrow> u ''Email is empty'' \<in> set (snd (validate_row row required_fields)) \<or>
          u ''Invalid email address: '' @ [39] @ email @ [39] \<in> set (snd (validate_row row required_fields))))"
proof -
  define email where "email = strip (case row (u ''Email'') of None \<Rightarrow> [] | Some v \<Rightarrow> v)"
  let ?shape = "\<exists>l d t. email = l @ [64] @ d @ [46] @ t \<and> l \<noteq> [] \<and> d \<noteq> [] \<and> t \<noteq> [] \<and>
           64 \<notin> set l \<and> 64 \<notin> set d \<and> 64 \<notin> set t"
  have vr: "validate_row row rf =
     (let errors = check_required row rf [] @
            (if email = [] then [u ''Email is empty'']
             else if \<not> re_match EMAIL_REGEX email
             then [u ''Invalid email address: '' @ [39] @ email @ [39]]
             else [])
      in (errors = [], errors))" for rf
    unfolding email_def by (simp only: validate_row_unfold Let_def)
  have m: "re_match EMAIL_REGEX email \<longleftrightarrow> ?shape"
    by (simp only: re_match_EMAIL_REGEX fullmatch_EMAIL_REGEX)
  have ne: "?shape \<Longrightarrow> email \<noteq> []" by auto
  have A: "fst (validate_row row []) \<longleftrightarrow> ?shape"
  proof (cases "email = []")
    case True
    then show ?thesis using ne by (auto simp: vr Let_def)
  next
    case False
    then have "fst (validate_row row []) \<longleftrightarrow> re_match EMAIL_REGEX email"
      by (simp add: vr Let_def)
    with m show ?thesis by simp
  qed
  have B: "u ''Email is empty'' \<in> set (snd (validate_row row required_fields)) \<or>
          u ''Invalid email address: '' @ [39] @ email @ [39] \<in> set (snd (validate_row row required_fields))"
    if c: "\<not> (email \<noteq> [] \<and> count_list email 64 = 1 \<and> 46 \<in> set (tl (dropWhile (\<lambda>c. c \<noteq> 64) email)))"
  proof (cases "email = []")
    case True
    then show ?thesis by (simp add: vr Let_def)
  next
    case False
    have "\<not> ?shape" using c EMAIL_shape_claimed by blast
    then have "\<not> re_match EMAIL_REGEX email" using m by simp
    with False show ?thesis by (simp add: vr Let_def)
  qed
  from A B show ?thesis unfolding Let_def email_def[symmetric] by blast
qed

text \<open>An accepted and a rejected address.\<close>

theorem validate_row_email_pattern_witness:
  "fst (validate_row [u ''Email'' \<mapsto> u ''al@ex.org''] []) \<and>
   (\<exists>l d t. u ''al@ex.org'' = l @ [64] @ d @ [46] @ t \<and> l \<noteq> [] \<and> d \<noteq> [] \<and> t \<noteq> [] \<and>
           64 \<notin> set l \<and> 64 \<notin> set d \<and> 64 \<notin> set t) \<and>
   count_list (u ''alex.org'') 64 = 0 \<and>
   (u ''Email is empty'' \<in> set (snd (validate_row [u ''Email'' \<mapsto> u ''alex.org''] [u ''Email''])) \<or>
    u ''Invalid email address: '' @ [39] @ u ''alex.org'' @ [39]
      \<in> set (snd (validate_row [u ''Email'' \<mapsto> u ''alex.org''] [u ''Email''])))"
proof -
  have s: "strip (u ''al@ex.org'') = u ''al@ex.org''" "strip (u ''alex.org'') = u ''alex.org''"
    by (simp_all add: strip_def lstrip_def rstrip_def isspace_def)
  have f: "fst (validate_row [u ''Email'' \<mapsto> u ''al@ex.org''] [])"
    using s by (simp add: validate_row_def re_match_def EMAIL_REGEX_def)
  have c: "count_list (u ''alex.org'') 64 = 0" by simp
  note t1 = validate_row_email_pattern[of "[u ''Email'' \<mapsto> u ''al@ex.org'']" "[]", unfolded Let_def]
  note t2 = validate_row_email_pattern[of "[u ''Email'' \<mapsto> u ''alex.org'']" "[u ''Email'']", unfolded Let_def]
  have A: "\<exists>l d t. u ''al@ex.org'' = l @ [64] @ d @ [46] @ t \<and> l \<noteq> [] \<and> d \<noteq> [] \<and> t \<noteq> [] \<and>
           64 \<notin> set l \<and> 64 \<notin> set d \<and> 64 \<notin> set t"
    using t1 f s by simp
  have B: "u ''Email is empty'' \<in> set (snd (validate_row [u ''Email'' \<mapsto> u ''alex.org''] [u ''Email''])) \<or>
    u ''Invalid email address: '' @ [39] @ u ''alex.org'' @ [39]
      \<in> set (snd (validate_row [u ''Email'' \<mapsto> u ''alex.org''] [u ''Email'']))"
    using t2 s by simp
  from f A c B show ?thesis by blast
qed

text \<open>
  The claim as stated fails: \<open>a@.b\<close> is not blank, has exactly one \<open>@\<close> and a dot after
  it, and is rejected.
\<close>

theorem validate_row_email_pattern_counterexample:
  "strip (u ''a@.b'') = u ''a@.b'' \<and> u ''a@.b'' \<noteq> [] \<and> count_list (u ''a@.b'') 64 = 1 \<and>
   46 \<in> set (tl (dropWhile (\<lambda>c. c \<noteq> 64) (u ''a@.b''))) \<and>
   validate_row [u ''Email'' \<mapsto> u ''a@.b''] [] =
     (False, [u ''Invalid email address: '' @ [39] @ u ''a@.b'' @ [39]])"
  by (simp add: validate_row_def re_match_def EMAIL_REGEX_def strip_def lstrip_def rstrip_def isspace_def)

text \<open>
  Claim C6. \<open>validate_row\<close> returns every violation, in order: one error for each
  required field that is absent or blank after trimming, in the order of the required
  fields, followed by the error of the email check if there is one; the row is valid
  exactly when the list is empty. A record with a blank name and a malformed, non-blank
  email, and the other required fields filled, yields exactly two errors.
\<close>

theorem validate_row_all_violations:
  "snd (validate_row row required_fields) =
     map (\<lambda>f. u ''Missing required field '' @ [39] @ f @ [39])
       (filter (\<lambda>f. case row f of None \<Rightarrow> True | Some v \<Rightarrow> strip v = []) required_fields)
     @ (let email = strip (case row (u ''Email'') of None \<Rightarrow> [] | Some v \<Rightarrow> v)
        in if email = [] then [u ''Email is empty'']
           else if \<not> re_match EMAIL_REGEX email
           then [u ''Invalid email address: '' @ [39] @ email @ [39]]
           else [])
   \<and> (fst (validate_row row required_fields) \<longleftrightarrow> snd (validate_row row required_fields) = [])
   \<and> ((case row (u ''Name'') of None \<Rightarrow> True | Some v \<Rightarrow> strip v = []) \<and>
       (\<forall>f \<in> {u ''SNo'', u ''Email'', u ''Title'', u ''Company''}. \<exists>v. row f = Some v \<and> strip v \<noteq> []) \<and>
       \<not> re_match EMAIL_REGEX (strip (the (row (u ''Email''))))
      \<longrightarrow> snd (validate_row row [u ''SNo'', u ''Name'', u ''Email'', u ''Title'', u ''Company'']) =
            [u ''Missing required field '' @ [39] @ u ''Name'' @ [39],
             u ''Invalid email address: '' @ [39] @ strip (the (row (u ''Email''))) @ [39]])"
proof (intro conjI impI)
  show "snd (validate_row row required_fields) =
     map (\<lambda>f. u ''Missing required field '' @ [39] @ f @ [39])
       (filter (\<lambda>f. case row f of None \<Rightarrow> True | Some v \<Rightarrow> strip v = []) required_fields)
     @ (let email = strip (case row (u ''Email'') of None \<Rightarrow> [] | Some v \<Rightarrow> v)
        in if email = [] then [u ''Email is empty'']
           else if \<not> re_match EMAIL_REGEX email
           then [u ''Invalid email address: '' @ [39] @ email @ [39]]
           else [])"
    by (simp add: validate_row_unfold check_required_acc Let_def)
  show "fst (validate_row row required_fields) \<longleftrightarrow> snd (validate_row row required_fields) = []"
    by (simp add: validate_row_unfold Let_def)
next
  assume h: "(case row (u ''Name'') of None \<Rightarrow> True | Some v \<Rightarrow> strip v = []) \<and>
       (\<forall>f \<in> {u ''SNo'', u ''Email'', u ''Title'', u ''Company''}. \<exists>v. row f = Some v \<and> strip v \<noteq> []) \<and>
       \<not> re_match EMAIL_REGEX (strip (the (row (u ''Email''))))"
  then obtain a b c d where v: "row (u ''SNo'') = Some a" "strip a \<noteq> []"
    "row (u ''Email'') = Some b" "strip b \<noteq> []" "row (u ''Title'') = Some c" "strip c \<noteq> []"
    "row (u ''Company'') = Some d" "strip d \<noteq> []"
    by auto
  from h have n: "(case row (u ''Name'') of None \<Rightarrow> True | Some v \<Rightarrow> strip v = [])"
    and e: "\<not> re_match EMAIL_REGEX (strip b)" using v(3) by simp_all
  show "snd (validate_row row [u ''SNo'', u ''Name'', u ''Email'', u ''Title'', u ''Company'']) =
            [u ''Missing required field '' @ [39] @ u ''Name'' @ [39],
             u ''Invalid email address: '' @ [39] @ strip (the (row (u ''Email''))) @ [39]]"
    using v n e by (simp add: validate_row_unfold Let_def)
qed

text \<open>A record with a blank name and a malformed email.\<close>

theorem validate_row_all_violations_witness:
  "snd (validate_row [u ''SNo'' \<mapsto> u ''7'', u ''Name'' \<mapsto> u ''  '', u ''Email'' \<mapsto> u ''bob.example.com'',
                      u ''Title'' \<mapsto> u ''CTO'', u ''Company'' \<mapsto> u ''Acme'']
          [u ''SNo'', u ''Name'', u ''Email'', u ''Title'', u ''Company'']) =
     [u ''Missing required field '' @ [39] @ u ''Name'' @ [39],
      u ''Invalid email address: '' @ [39] @ u ''bob.example.com'' @ [39]]"
proof -
  let ?row = "[u ''SNo'' \<mapsto> u ''7'', u ''Name'' \<mapsto> u ''  '', u ''Email'' \<mapsto> u ''bob.example.com'',
                      u ''Title'' \<mapsto> u ''CTO'', u ''Company'' \<mapsto> u ''Acme'']"
  have s: "strip (u ''7'') = u ''7''" "strip (u ''  '') = []" "strip (u ''CTO'') = u ''CTO''"
    "strip (u ''Acme'') = u ''Acme''" "strip (u ''bob.example.com'') = u ''bob.example.com''"
    by (simp_all add: strip_def lstrip_def rstrip_def isspace_def)
  have m: "\<not> re_match EMAIL_REGEX (u ''bob.example.com'')"
    by (simp add: re_match_def EMAIL_REGEX_def)
  have "(case ?row (u ''Name'') of None \<Rightarrow> True | Some v \<Rightarrow> strip v = []) \<and>
       (\<forall>f \<in> {u ''SNo'', u ''Email'', u ''Title'', u ''Company''}. \<exists>v. ?row f = Some v \<and> strip v \<noteq> []) \<and>
       \<not> re_match EMAIL_REGEX (strip (the (?row (u ''Email''))))"
    using s m by simp
  with validate_row_all_violations[of ?row "[]"] show ?thesis using s by simp
qed

text \<open>
  Claim C10. When \<open>Email\<close> is a required field and the record's email is absent or blank
  after trimming, the errors hold both \<open>Missing required field 'Email'\<close> and
  \<open>Email is empty\<close>, two different strings: the blank email is reported twice.
\<close>

theorem validate_row_blank_email_twice:
  "u ''Email'' \<in> set required_fields \<Longrightarrow>
   (case row (u ''Email'') of None \<Rightarrow> True | Some v \<Rightarrow> strip v = []) \<Longrightarrow>
   u ''Missing required field '' @ [39] @ u ''Email'' @ [39] \<in> set (snd (validate_row row required_fields)) \<and>
   u ''Email is empty'' \<in> set (snd (validate_row row required_fields)) \<and>
   u ''Missing required field '' @ [39] @ u ''Email'' @ [39] \<noteq> u ''Email is empty'' \<and>
   2 \<le> length (snd (validate_row row required_fields)) \<and>
   \<not> fst (validate_row row required_fields)"
proof -
  assume r: "u ''Email'' \<in> set required_fields"
    and b: "case row (u ''Email'') of None \<Rightarrow> True | Some v \<Rightarrow> strip v = []"
  let ?miss = "\<lambda>f. u ''Missing required field '' @ [39] @ f @ [39]"
  let ?blank = "\<lambda>f. case row f of None \<Rightarrow> True | Some v \<Rightarrow> strip v = []"
  have e: "strip (case row (u ''Email'') of None \<Rightarrow> [] | Some v \<Rightarrow> v) = []"
    using b by (auto split: option.splits simp: strip_def lstrip_def rstrip_def)
  have errs: "snd (validate_row row required_fields) =
      map ?miss (filter ?blank required_fields) @ [u ''Email is empty'']"
    using e by (simp add: validate_row_unfold check_required_acc Let_def)
  have inF: "u ''Email'' \<in> set (filter ?blank required_fields)" using r b by simp
  then have mem: "?miss (u ''Email'') \<in> set (map ?miss (filter ?blank required_fields))"
    unfolding set_map by (rule imageI)
  from inF have "filter ?blank required_fields \<noteq> []"
    by (metis empty_iff list.set(1))
  then have len: "1 \<le> length (filter ?blank required_fields)"
    by (simp add: Suc_le_eq)
  have d: "?miss (u ''Email'') \<noteq> u ''Email is empty''" by simp
  from mem have m1: "?miss (u ''Email'') \<in> set (snd (validate_row row required_fields))"
    unfolding errs by simp
  have m2: "u ''Email is empty'' \<in> set (snd (validate_row row required_fields))"
    unfolding errs by simp
  have l: "2 \<le> length (snd (validate_row row required_fields))"
    unfolding errs using len by simp
  have f: "\<not> fst (validate_row row required_fields)"
    using e by (simp add: validate_row_unfold Let_def)
  from m1 m2 d l f show ?thesis by blast
qed

text \<open>A record whose email is a single space.\<close>

theorem validate_row_blank_email_twice_witness:
  "snd (validate_row [u ''Name'' \<mapsto> u ''Bo'', u ''Email'' \<mapsto> u '' '']
          [u ''SNo'', u ''Name'', u ''Email'', u ''Title'', u ''Company'']) =
     [u ''Missing required field '' @ [39] @ u ''SNo'' @ [39],
      u ''Missing required field '' @ [39] @ u ''Email'' @ [39],
      u ''Missing required field '' @ [39] @ u ''Title'' @ [39],
      u ''Missing required field '' @ [39] @ u ''Company'' @ [39],
      u ''Email is empty''] \<and>
   u ''Missing required field '' @ [39] @ u ''Email'' @ [39]
     \<in> set (snd (validate_row [u ''Name'' \<mapsto> u ''Bo'', u ''Email'' \<mapsto> u '' '']
          [u ''SNo'', u ''Name'', u ''Email'', u ''Title'', u ''Company''])) \<and>
   u ''Email is empty''
     \<in> set (snd (validate_row [u ''Name'' \<mapsto> u ''Bo'', u ''Email'' \<mapsto> u '' '']
          [u ''SNo'', u ''Name'', u ''Email'', u ''Title'', u ''Company'']))"
proof -
  let ?row = "[u ''Name'' \<mapsto> u ''Bo'', u ''Email'' \<mapsto> u '' '']"
  let ?req = "[u ''SNo'', u ''Name'', u ''Email'', u ''Title'', u ''Company'']"
  have s: "strip (u '' '') = []" "strip (u ''Bo'') = u ''Bo''"
    by (simp_all add: strip_def lstrip_def rstrip_def isspace_def)
  have 1: "u ''Email'' \<in> set ?req" by simp
  have 2: "case ?row (u ''Email'') of None \<Rightarrow> True | Some v \<Rightarrow> strip v = []" using s by simp
  have 3: "snd (validate_row ?row ?req) =
     [u ''Missing required field '' @ [39] @ u ''SNo'' @ [39],
      u ''Missing required field '' @ [39] @ u ''Email'' @ [39],
      u ''Missing required field '' @ [39] @ u ''Title'' @ [39],
      u ''Missing required field '' @ [39] @ u ''Company'' @ [39],
      u ''Email is empty'']"
    using s by (simp add: validate_row_def)
  from validate_row_blank_email_twice[where row = ?row and required_fields = ?req, OF 1 2] 3
  show ?thesis by blast
qed

subsection \<open>CSV ingestion\<close>

lemma sub_comma_space_comma:
  "sub_comma_space (44 # s) = 44 # sub_comma_space (dropWhile isspace s)"
  by (cases s) simp_all

lemma isspace_facts: "isspace 32" "\<not> isspace 44"
  by (simp_all add: isspace_def)

lemma dropWhile_tabs_to_commas:
  "dropWhile isspace (tabs_to_commas s) = tabs_to_commas (dropWhile (\<lambda>c. isspace c \<and> c \<noteq> 9) s)"
  by (induction s) (auto simp: tabs_to_commas_def isspace_facts)

lemma dropWhile_spaced:
  "dropWhile isspace (tabs_to_commas (space_after_commas s)) =
     tabs_to_commas (space_after_commas (dropWhile (\<lambda>c. isspace c \<and> c \<noteq> 9) s))"
  by (induction s) (auto simp: tabs_to_commas_def space_after_commas_def isspace_facts)

lemma normalize_csv_spaced: "normalize_csv (space_after_commas s) = normalize_csv s"
proof (induction s rule: length_induct)
  case (1 s)
  show ?case
  proof (cases s)
    case Nil
    then show ?thesis by (simp add: normalize_csv_def space_after_commas_def tabs_to_commas_def)
  next
    case (Cons c cs)
    let ?cs' = "dropWhile (\<lambda>c. isspace c \<and> c \<noteq> 9) cs"
    have len: "length ?cs' < length s" using Cons by (simp add: length_dropWhile_le less_Suc_eq_le)
    have IH': "normalize_csv (space_after_commas ?cs') = normalize_csv ?cs'"
      using 1 len by blast
    have IH: "normalize_csv (space_after_commas cs) = normalize_csv cs"
      using 1 Cons by simp
    show ?thesis
    proof (cases "c = 44 \<or> c = 9")
      case True
      have "normalize_csv (space_after_commas s) =
              44 # sub_comma_space (dropWhile isspace (tabs_to_commas (space_after_commas cs)))"
        using True Cons
        by (auto simp: normalize_csv_def space_after_commas_def tabs_to_commas_def
              sub_comma_space_comma isspace_facts simp del: sub_comma_space.simps)
      also have "\<dots> = 44 # normalize_csv (space_after_commas ?cs')"
        by (simp add: dropWhile_spaced normalize_csv_def)
      also have "\<dots> = 44 # normalize_csv ?cs'" by (simp add: IH')
      also have "\<dots> = 44 # sub_comma_space (dropWhile isspace (tabs_to_commas cs))"
        by (simp add: dropWhile_tabs_to_commas normalize_csv_def)
      also have "\<dots> = normalize_csv s"
        using True Cons
        by (auto simp: normalize_csv_def tabs_to_commas_def sub_comma_space_comma
              simp del: sub_comma_space.simps)
      finally show ?thesis .
    next
      case False
      then have "normalize_csv (space_after_commas s) = c # normalize_csv (space_after_commas cs)"
        using Cons by (simp add: normalize_csv_def space_after_commas_def tabs_to_commas_def)
      moreover have "normalize_csv s = c # normalize_csv cs"
        using False Cons by (simp add: normalize_csv_def tabs_to_commas_def)
      ultimately show ?thesis using IH by simp
    qed
  qed
qed

text \<open>
  Claim C9. A file written in the single-space-after-comma style is read as the same
  file without the spaces: both normalize to the same text, so the \<open>csv\<close> module sees
  the same input and \<open>read_csv\<close> returns the same records in the same order (or raises
  the same exception). This holds for every text and every behaviour of the \<open>csv\<close>
  module.
\<close>

theorem read_csv_space_after_commas:
  "fs1 p1 = Some content \<Longrightarrow> fs2 p2 = Some (space_after_commas content) \<Longrightarrow>
   read_csv reader fs2 p2 = read_csv reader fs1 p1"
proof -
  assume a: "fs1 p1 = Some content" "fs2 p2 = Some (space_after_commas content)"
  let ?raw = "\<lambda>t. case t of [] \<Rightarrow> [] | c # cs \<Rightarrow> if c = 65279 then cs else t"
  have "?raw (space_after_commas content) = space_after_commas (?raw content)"
    by (cases content) (auto simp: space_after_commas_def)
  then have "normalize_csv (?raw (space_after_commas content)) = normalize_csv (?raw content)"
    by (simp only: normalize_csv_spaced)
  then show ?thesis using a unfolding read_csv_def Let_def by (simp only: option.simps)
qed

text \<open>A file of two lines, with a reader that takes each line as one field.\<close>

theorem read_csv_space_after_commas_witness:
  "space_after_commas (u ''Name,Email'' @ [10] @ u ''Ann,ann@x.org'') =
     u ''Name, Email'' @ [10] @ u ''Ann, ann@x.org'' \<and>
   read_csv (\<lambda>t. map (\<lambda>l. [l]) (splitlines t))
      [u ''b.csv'' \<mapsto> u ''Name, Email'' @ [10] @ u ''Ann, ann@x.org''] (u ''b.csv'') =
   read_csv (\<lambda>t. map (\<lambda>l. [l]) (splitlines t))
      [u ''a.csv'' \<mapsto> u ''Name,Email'' @ [10] @ u ''Ann,ann@x.org''] (u ''a.csv'')"
proof -
  have s: "space_after_commas (u ''Name,Email'' @ [10] @ u ''Ann,ann@x.org'') =
     u ''Name, Email'' @ [10] @ u ''Ann, ann@x.org''"
    by (simp add: space_after_commas_def)
  have 1: "[u ''a.csv'' \<mapsto> u ''Name,Email'' @ [10] @ u ''Ann,ann@x.org''] (u ''a.csv'') =
     Some (u ''Name,Email'' @ [10] @ u ''Ann,ann@x.org'')" by simp
  have 2: "[u ''b.csv'' \<mapsto> u ''Name, Email'' @ [10] @ u ''Ann, ann@x.org''] (u ''b.csv'') =
     Some (space_after_commas (u ''Name,Email'' @ [10] @ u ''Ann,ann@x.org''))"
    unfolding s by simp
  from read_csv_space_after_commas[where ?fs1.0 = "[u ''a.csv'' \<mapsto> u ''Name,Email'' @ [10] @ u ''Ann,ann@x.org'']"
      and ?p1.0 = "u ''a.csv''" and ?p2.0 = "u ''b.csv''"
      and ?fs2.0 = "[u ''b.csv'' \<mapsto> u ''Name, Email'' @ [10] @ u ''Ann, ann@x.org'']", OF 1 2] s
  show ?thesis by blast
qed

subsection \<open>The run log\<close>

lemma write_log_row_files:
  "files (write_log_row now path row status message w) =
     (files w)(path \<mapsto>
        (case files w path of None \<Rightarrow> csv_writerow log_header | Some old \<Rightarrow> old)
        @ csv_writerow [now, row_get row (u ''SNo''), row_get row (u ''Name''),
            row_get row (u ''Email''), row_get row (u ''Company''), row_get row (u ''Title''),
            status, message])"
  by (simp add: write_log_row_def Let_def split: option.splits)

lemma write_log_row_trace [simp]:
  "trace (write_log_row now path row status message w) = trace w"
  by (simp add: write_log_row_def Let_def)




subsection \<open>Sending\<close>

lemma emit_simps [simp]:
  "files (emit e w) = files w" "unreadable (emit e w) = unreadable w"
  "trace (emit e w) = trace w @ [e]" "path_exists (emit e w) p = path_exists w p"
  by (simp_all add: emit_def path_exists_def)



lemma py_sleep_ok: "0 \<le> d \<Longrightarrow> d \<le> sleep_limit \<Longrightarrow> py_sleep d w = Inr (emit (Sleep d) w)"
  by (simp add: py_sleep_def)

lemma interval_range: "0 < interval a" "interval a \<le> 600"
  by (simp_all add: interval_def max_def field_simps)

lemma interval_sleep: "py_sleep (interval a) w = Inr (emit (Sleep (interval a)) w)"
proof -
  have "(600::real) \<le> sleep_limit" by (simp add: sleep_limit_def)
  with interval_range[of a] show ?thesis by (intro py_sleep_ok) simp_all
qed
















subsection \<open>Template rendering\<close>

text \<open>
  Claim C1 at a failing input. A placeholder of the subject line that the record lacks
  raises \<open>KeyError\<close>: \<open>subject_line.format(**safe_row)\<close> stands outside the \<open>try\<close> block
  that makes the body tolerant. The same placeholder in the body resolves to the empty
  string.
\<close>

theorem render_template_subject_missing_key:
  "render_template (u ''Subject: Hi {Foo}'' @ [10] @ u ''Body'') [u ''Name'' \<mapsto> u ''Ann''] =
     Inl (KeyError (u ''Foo'')) \<and>
   render_template (u ''Hi {Foo}'') [u ''Name'' \<mapsto> u ''Ann''] =
     Inr (u ''Hello Ann '' @ [8212] @ u '' Opportunity to connect'', u ''Hi '')"
  by (simp add: render_template_def splitlines_def startswith_def lower_def str_format_def
      format_map_default_def strip_def lstrip_def rstrip_def isspace_def get_field_def
      is_linebreak_def)

subsection \<open>The orchestrator\<close>

lemma valid_row_has_email:
  "fst (validate_row row req) \<Longrightarrow> \<exists>v. row (u ''Email'') = Some v"
proof (rule ccontr)
  assume v: "fst (validate_row row req)" and n: "\<nexists>v. row (u ''Email'') = Some v"
  then have "row (u ''Email'') = None" by simp
  then have "strip (case row (u ''Email'') of None \<Rightarrow> [] | Some v \<Rightarrow> v) = []"
    by (simp add: strip_def lstrip_def rstrip_def)
  then have "\<not> fst (validate_row row req)"
    by (simp add: validate_row_unfold Let_def)
  with v show False by simp
qed

lemma process_row_invalid:
  "\<not> fst (validate_row row required_fields_main) \<Longrightarrow>
   process_row e a t n row st =
     Inr (st\<lparr>total := total st + 1, skipped_count := skipped_count st + 1,
             rs_world := write_log_row (utcnow e (total st + 1)) (arg_log a) row (u ''skipped'')
                           (join (u ''; '') (snd (validate_row row required_fields_main)))
                           (rs_world st)\<rparr>)"
  by (simp add: process_row_def Let_def case_prod_beta)

lemma process_row_valid:
  assumes "fst (validate_row row required_fields_main)"
    "render_template t row = Inr (subj, bod)" "row (u ''Email'') = Some email"
    "send_email (email_module e) (smtp_server e (total st + 1))
       (dispatch_args e a (rs_world st) email subj bod) (rs_world st) = Inr ((ok, msg), w1)"
  shows "process_row e a t n row st =
     Inr ((if total st + 1 < n
           then (\<lambda>s. s\<lparr>rs_world := emit (Sleep (interval a)) (rs_world s)\<rparr>) else (\<lambda>s. s))
          (st\<lparr>total := total st + 1,
              sent_count := (if ok \<and> arg_send a then sent_count st + 1 else sent_count st),
              failed_count := (if ok then failed_count st else failed_count st + 1),
              rs_world := write_log_row (utcnow e (total st + 1)) (arg_log a) row
                 (if ok then (if arg_send a then u ''sent'' else u ''previewed'') else u ''failed'')
                 msg w1\<rparr>))"
  using assms
  by (simp add: process_row_def Let_def case_prod_beta interval_sleep)

lemma process_row_raises:
  assumes "fst (validate_row row required_fields_main)"
    "render_template t row = Inr (subj, bod)" "row (u ''Email'') = Some email"
    "send_email (email_module e) (smtp_server e (total st + 1))
       (dispatch_args e a (rs_world st) email subj bod) (rs_world st) = Inl err"
  shows "process_row e a t n row st = Inl err"
  using assms
  by (simp add: process_row_def Let_def case_prod_beta)

lemma slept_simps [simp]:
  "slept [] = []" "slept (xs @ ys) = slept xs @ slept ys" "slept (Sleep d # xs) = d # slept xs"
  "slept (SmtpConnect k # xs) = slept xs" "slept (Preview x y z v # xs) = slept xs"
  by (simp_all add: slept_def)

lemma send_email_dry_trace:
  "dry_run sa \<Longrightarrow> send_email me smtp sa w = Inr (r, w1) \<Longrightarrow> slept (trace w1) = slept (trace w)"
  by (auto simp: send_email_def Let_def split: option.splits sum.splits if_splits)

lemma process_row_total:
  "process_row e a t n row st = Inr st' \<Longrightarrow> total st' = total st + 1"
  by (auto simp: process_row_def Let_def case_prod_beta interval_sleep
      split: if_splits sum.splits option.splits)

lemma process_row_trace:
  assumes "process_row e a t n row st = Inr st'"
  shows "(\<not> fst (validate_row row required_fields_main) \<longrightarrow>
            trace (rs_world st') = trace (rs_world st)) \<and>
         (fst (validate_row row required_fields_main) \<longrightarrow>
            (\<exists>email subj bod r w1. row (u ''Email'') = Some email \<and>
               render_template t row = Inr (subj, bod) \<and>
               send_email (email_module e) (smtp_server e (total st + 1))
                 (dispatch_args e a (rs_world st) email subj bod) (rs_world st) = Inr (r, w1) \<and>
               trace (rs_world st') =
                 trace w1 @ (if total st + 1 < n then [Sleep (interval a)] else [])))"
proof (cases "fst (validate_row row required_fields_main)")
  case False
  with assms show ?thesis by (auto simp: process_row_invalid)
next
  case True
  from valid_row_has_email[OF True] obtain email where em: "row (u ''Email'') = Some email" by blast
  from assms True em obtain subj bod where r: "render_template t row = Inr (subj, bod)"
    by (auto simp: process_row_def Let_def case_prod_beta split: sum.splits)
  have "\<exists>ok msg w1. send_email (email_module e) (smtp_server e (total st + 1))
       (dispatch_args e a (rs_world st) email subj bod) (rs_world st) = Inr ((ok, msg), w1)"
  proof (cases "send_email (email_module e) (smtp_server e (total st + 1))
       (dispatch_args e a (rs_world st) email subj bod) (rs_world st)")
    case (Inl err)
    from process_row_raises[OF True r em Inl, of n] assms show ?thesis by simp
  next
    case (Inr x)
    then show ?thesis by (cases x) auto
  qed
  then obtain ok msg w1 where s: "send_email (email_module e) (smtp_server e (total st + 1))
       (dispatch_args e a (rs_world st) email subj bod) (rs_world st) = Inr ((ok, msg), w1)"
    by blast
  from process_row_valid[OF True r em s, of n] assms
  have "trace (rs_world st') = trace w1 @ (if total st + 1 < n then [Sleep (interval a)] else [])"
    by (auto split: if_splits)
  with True em r s show ?thesis by blast
qed

lemma process_row_sleeps_dry:
  assumes "\<not> arg_send a" "process_row e a t n row st = Inr st'"
  shows "slept (trace (rs_world st')) = slept (trace (rs_world st)) @
           (if fst (validate_row row required_fields_main) \<and> total st + 1 < n then [interval a] else [])"
proof (cases "fst (validate_row row required_fields_main)")
  case False
  with process_row_trace[OF assms(2)] show ?thesis by simp
next
  case True
  with process_row_trace[OF assms(2)] obtain email subj bod r w1 where
    s: "send_email (email_module e) (smtp_server e (total st + 1))
                 (dispatch_args e a (rs_world st) email subj bod) (rs_world st) = Inr (r, w1)" and
    tr: "trace (rs_world st') =
           trace w1 @ (if total st + 1 < n then [Sleep (interval a)] else [])"
    by blast
  have d: "dry_run (dispatch_args e a (rs_world st) email subj bod)"
    using assms(1) by (simp add: dispatch_args_def)
  show ?thesis unfolding tr using True by (simp add: send_email_dry_trace[OF d s])
qed

lemma process_rows_sleeps_dry:
  assumes "\<not> arg_send a"
  shows "process_rows e a t n rows st = Inr st' \<Longrightarrow> total st + length rows = n \<Longrightarrow>
     slept (trace (rs_world st')) = slept (trace (rs_world st)) @
       replicate (length (filter (\<lambda>r. fst (validate_row r required_fields_main)) (butlast rows)))
         (interval a)"
proof (induction rows arbitrary: st)
  case Nil
  then show ?case by simp
next
  case (Cons r rest)
  from Cons.prems(1) obtain st1 where 1: "process_row e a t n r st = Inr st1"
    and 2: "process_rows e a t n rest st1 = Inr st'"
    by (auto split: sum.splits)
  from process_row_total[OF 1] Cons.prems(2) have t: "total st1 + length rest = n" by simp
  from Cons.prems(2) have lt: "total st + 1 < n \<longleftrightarrow> rest \<noteq> []" by (cases rest) auto
  note s1 = process_row_sleeps_dry[OF assms 1]
  note s2 = Cons.IH[OF 2 t]
  show ?case unfolding s2 s1 using lt by (simp add: replicate_app_Cons_same)
qed

lemma demo_strip:
  "strip (u ''1'') = u ''1''" "strip (u ''Ann'') = u ''Ann''" "strip (u ''ann@x.org'') = u ''ann@x.org''"
  "strip (u ''CTO'') = u ''CTO''" "strip (u ''Acme'') = u ''Acme''" "strip [] = []"
  by (simp_all add: strip_def lstrip_def rstrip_def isspace_def)

lemma demo_valid:
  "validate_row [u ''SNo'' \<mapsto> u ''1'', u ''Name'' \<mapsto> u ''Ann'', u ''Email'' \<mapsto> u ''ann@x.org'',
       u ''Title'' \<mapsto> u ''CTO'', u ''Company'' \<mapsto> u ''Acme''] required_fields_main = (True, [])"
  using demo_strip by (simp add: validate_row_def required_fields_main_def re_match_def EMAIL_REGEX_def)

lemma demo_invalid:
  "validate_row Map.empty required_fields_main =
     (False, [u ''Missing required field '' @ [39] @ u ''SNo'' @ [39],
              u ''Missing required field '' @ [39] @ u ''Name'' @ [39],
              u ''Missing required field '' @ [39] @ u ''Email'' @ [39],
              u ''Missing required field '' @ [39] @ u ''Title'' @ [39],
              u ''Missing required field '' @ [39] @ u ''Company'' @ [39],
              u ''Email is empty''])"
  using demo_strip by (simp add: validate_row_def required_fields_main_def)

lemma demo_render:
  "render_template (u ''Hi {Name}'')
     [u ''SNo'' \<mapsto> u ''1'', u ''Name'' \<mapsto> u ''Ann'', u ''Email'' \<mapsto> u ''ann@x.org'',
       u ''Title'' \<mapsto> u ''CTO'', u ''Company'' \<mapsto> u ''Acme''] =
     Inr (u ''Hello Ann '' @ [8212] @ u '' Opportunity to connect'', u ''Hi Ann'')"
  by (simp add: render_template_def splitlines_def startswith_def lower_def str_format_def
      get_field_def is_linebreak_def)

lemma demo_fields:
  "utcnow demo_env k = u ''2024-01-02T03:04:05''" "smtp_server demo_env k = (\<lambda>j. Delivered)"
  "GMAIL_USER demo_env = None" "GMAIL_APP_PASS demo_env = None"
  "arg_log demo_args = u ''send_log.csv''" "arg_resume demo_args = u ''resume.pdf''"
  "arg_send demo_args = False" "arg_max_retries demo_args = 3" "interval demo_args = 3"
  "email_module demo_env = (\<lambda>user to subj bod. None)"
  by (simp_all add: demo_env_def demo_args_def interval_def)

lemma demo_row_step:
  "\<not> path_exists (rs_world st) (u ''resume.pdf'') \<Longrightarrow>
   process_row demo_env demo_args (u ''Hi {Name}'') n demo_row st =
     Inr ((if total st + 1 < n
           then (\<lambda>s. s\<lparr>rs_world := emit (Sleep 3) (rs_world s)\<rparr>) else (\<lambda>s. s))
          (st\<lparr>total := total st + 1,
              rs_world := write_log_row (u ''2024-01-02T03:04:05'') (u ''send_log.csv'') demo_row
                 (u ''previewed'') (u ''dry-run previewed'')
                 (emit (Preview (u ''ann@x.org'') (u ''Hello Ann '' @ [8212] @ u '' Opportunity to connect'')
                          (u ''Hi Ann'') None) (rs_world st))\<rparr>))"
proof -
  assume f: "\<not> path_exists (rs_world st) (u ''resume.pdf'')"
  have v: "fst (validate_row demo_row required_fields_main)"
    using demo_valid by (simp add: demo_row_def)
  have r: "render_template (u ''Hi {Name}'') demo_row =
      Inr (u ''Hello Ann '' @ [8212] @ u '' Opportunity to connect'', u ''Hi Ann'')"
    using demo_render by (simp add: demo_row_def)
  have em: "demo_row (u ''Email'') = Some (u ''ann@x.org'')" by (simp add: demo_row_def)
  have s: "send_email (email_module demo_env) (smtp_server demo_env (total st + 1))
       (dispatch_args demo_env demo_args (rs_world st) (u ''ann@x.org'')
          (u ''Hello Ann '' @ [8212] @ u '' Opportunity to connect'') (u ''Hi Ann'')) (rs_world st) =
       Inr ((True, u ''dry-run previewed''),
        emit (Preview (u ''ann@x.org'') (u ''Hello Ann '' @ [8212] @ u '' Opportunity to connect'')
                          (u ''Hi Ann'') None) (rs_world st))"
    using f demo_fields by (simp add: send_email_def dispatch_args_def)
  from process_row_valid[OF v r em s, of n] show ?thesis
    using demo_fields by simp
qed

lemma demo_skip_step:
  "process_row demo_env demo_args t n Map.empty st =
     Inr (st\<lparr>total := total st + 1, skipped_count := skipped_count st + 1,
             rs_world := write_log_row (u ''2024-01-02T03:04:05'') (u ''send_log.csv'') Map.empty
                (u ''skipped'')
                (join (u ''; '') (snd (validate_row Map.empty required_fields_main))) (rs_world st)\<rparr>)"
proof -
  have "\<not> fst (validate_row Map.empty required_fields_main)" by (simp add: demo_invalid)
  from process_row_invalid[OF this] show ?thesis using demo_fields by simp
qed

lemma write_log_row_unreadable [simp]:
  "unreadable (write_log_row now path row status message w) = unreadable w"
  by (simp add: write_log_row_def Let_def)

lemma demo_run:
  "process_rows demo_env demo_args (u ''Hi {Name}'') 2 [Map.empty, demo_row] demo_start =
     Inr (demo_start\<lparr>total := 2, skipped_count := 1,
            rs_world := write_log_row (u ''2024-01-02T03:04:05'') (u ''send_log.csv'') demo_row
              (u ''previewed'') (u ''dry-run previewed'')
              (emit (Preview (u ''ann@x.org'') (u ''Hello Ann '' @ [8212] @ u '' Opportunity to connect'')
                       (u ''Hi Ann'') None)
                 (write_log_row (u ''2024-01-02T03:04:05'') (u ''send_log.csv'') Map.empty
                    (u ''skipped'')
                    (join (u ''; '') (snd (validate_row Map.empty required_fields_main)))
                    (rs_world demo_start)))\<rparr>)"
proof -
  let ?st1 = "demo_start\<lparr>total := 1, skipped_count := 1,
             rs_world := write_log_row (u ''2024-01-02T03:04:05'') (u ''send_log.csv'') Map.empty
                (u ''skipped'')
                (join (u ''; '') (snd (validate_row Map.empty required_fields_main))) (rs_world demo_start)\<rparr>"
  have 1: "process_row demo_env demo_args (u ''Hi {Name}'') 2 Map.empty demo_start = Inr ?st1"
    by (simp add: demo_skip_step demo_start_def)
  have f: "\<not> path_exists (rs_world ?st1) (u ''resume.pdf'')"
    by (simp add: path_exists_def write_log_row_files demo_start_def)
  note 2 = demo_row_step[OF f, of 2]
  have "process_rows demo_env demo_args (u ''Hi {Name}'') 2 [Map.empty, demo_row] demo_start =
      process_row demo_env demo_args (u ''Hi {Name}'') 2 demo_row ?st1"
    unfolding process_rows.simps 1 by (simp split: sum.splits)
  then show ?thesis unfolding 2 by (simp add: demo_start_def)
qed

text \<open>
  Claim C3, as the code has it. One pass of the loop body: after a skipped contact the
  trace is unchanged (the \<open>continue\<close> comes before the sleep); after a dispatched
  contact (previewed, sent or failed) the events of \<open>send_email\<close> are followed by one
  sleep of \<open>60 / max(emails_per_minute, 0.1)\<close> seconds, except after the last contact
  of the list. Over a whole dry run the sleeps are one interval for each valid contact
  but the last of the list. At the default rate of 20 per minute the interval is 3
  seconds.
\<close>

theorem process_rows_rate_limit:
  "(process_row e a t n row st = Inr st' \<longrightarrow>
      (\<not> fst (validate_row row required_fields_main) \<longrightarrow>
          trace (rs_world st') = trace (rs_world st)) \<and>
      (fst (validate_row row required_fields_main) \<longrightarrow>
          (\<exists>email subj bod r w1. row (u ''Email'') = Some email \<and>
             render_template t row = Inr (subj, bod) \<and>
             send_email (email_module e) (smtp_server e (total st + 1))
               (dispatch_args e a (rs_world st) email subj bod) (rs_world st) = Inr (r, w1) \<and>
             trace (rs_world st') =
               trace w1
               @ (if total st + 1 < n then [Sleep (60 / max (arg_emails_per_minute a) (1 / 10))] else [])))) \<and>
   (\<not> arg_send a \<and> total st0 + length rows = m \<and> process_rows e a t m rows st0 = Inr st1 \<longrightarrow>
      slept (trace (rs_world st1)) =
        slept (trace (rs_world st0)) @
        replicate (length (filter (\<lambda>r. fst (validate_row r required_fields_main)) (butlast rows)))
          (60 / max (arg_emails_per_minute a) (1 / 10))) \<and>
   (arg_emails_per_minute a = 20 \<longrightarrow> interval a = 3)"
proof (intro conjI impI)
  assume p: "process_row e a t n row st = Inr st'"
  from process_row_trace[OF p]
  show "\<not> fst (validate_row row required_fields_main) \<Longrightarrow> trace (rs_world st') = trace (rs_world st)"
    by simp
  from process_row_trace[OF p, unfolded interval_def]
  show "fst (validate_row row required_fields_main) \<Longrightarrow>
     \<exists>email subj bod r w1. row (u ''Email'') = Some email \<and>
             render_template t row = Inr (subj, bod) \<and>
             send_email (email_module e) (smtp_server e (total st + 1))
               (dispatch_args e a (rs_world st) email subj bod) (rs_world st) = Inr (r, w1) \<and>
             trace (rs_world st') =
               trace w1
               @ (if total st + 1 < n then [Sleep (60 / max (arg_emails_per_minute a) (1 / 10))] else [])"
    by blast
next
  assume "\<not> arg_send a \<and> total st0 + length rows = m \<and> process_rows e a t m rows st0 = Inr st1"
  then have d: "\<not> arg_send a" and l: "total st0 + length rows = m"
    and r: "process_rows e a t m rows st0 = Inr st1" by simp_all
  from process_rows_sleeps_dry[OF d r l]
  show "slept (trace (rs_world st1)) =
        slept (trace (rs_world st0)) @
        replicate (length (filter (\<lambda>r. fst (validate_row r required_fields_main)) (butlast rows)))
          (60 / max (arg_emails_per_minute a) (1 / 10))"
    by (simp add: interval_def)
next
  assume "arg_emails_per_minute a = 20"
  then show "interval a = 3" by (simp add: interval_def)
qed

text \<open>
  The claim as stated fails: with a skipped contact followed by a valid one, no sleep
  occurs at all, where the claim has one sleep of 3 seconds after the first contact.
\<close>

theorem process_rows_rate_limit_counterexample:
  "\<not> isl (process_rows demo_env demo_args (u ''Hi {Name}'') 2 [Map.empty, demo_row] demo_start) \<and>
   total (projr (process_rows demo_env demo_args (u ''Hi {Name}'') 2 [Map.empty, demo_row] demo_start)) = 2 \<and>
   skipped_count (projr (process_rows demo_env demo_args (u ''Hi {Name}'') 2 [Map.empty, demo_row] demo_start)) = 1 \<and>
   trace (rs_world (projr (process_rows demo_env demo_args (u ''Hi {Name}'') 2 [Map.empty, demo_row] demo_start))) =
     [Preview (u ''ann@x.org'') (u ''Hello Ann '' @ [8212] @ u '' Opportunity to connect'') (u ''Hi Ann'') None] \<and>
   replicate (length [Map.empty, demo_row] - 1) (interval demo_args) = [3]"
  unfolding demo_run using demo_fields(9) by (simp add: demo_start_def)

text \<open>
  The same run, and the sleep after a valid first contact of two.
\<close>

theorem process_rows_rate_limit_witness:
  "slept (trace (rs_world (projr
      (process_rows demo_env demo_args (u ''Hi {Name}'') 2 [Map.empty, demo_row] demo_start)))) = [] \<and>
   interval demo_args = 3 \<and>
   last (trace (rs_world (projr
      (process_row demo_env demo_args (u ''Hi {Name}'') 2 demo_row demo_start)))) = Sleep 3"
proof -
  let ?T = "u ''Hi {Name}''"
  let ?r = "process_rows demo_env demo_args ?T 2 [Map.empty, demo_row] demo_start"
  let ?p = "process_row demo_env demo_args ?T 2 demo_row demo_start"
  have r: "?r = Inr (projr ?r)" unfolding demo_run by simp
  have f0: "\<not> path_exists (rs_world demo_start) (u ''resume.pdf'')"
    by (simp add: demo_start_def path_exists_def)
  have p: "?p = Inr (projr ?p)" unfolding demo_row_step[OF f0] by simp
  have v: "fst (validate_row demo_row required_fields_main)"
    using demo_valid by (simp add: demo_row_def)
  have nv: "filter (\<lambda>r. fst (validate_row r required_fields_main)) (butlast [Map.empty, demo_row]) = []"
    by (simp add: demo_invalid)
  have h: "\<not> arg_send demo_args \<and> total demo_start + length [Map.empty, demo_row] = 2 \<and>
      process_rows demo_env demo_args ?T 2 [Map.empty, demo_row] demo_start = Inr (projr ?r)"
    using r by (simp add: demo_fields demo_start_def)
  have e: "arg_emails_per_minute demo_args = 20" by (simp add: demo_args_def)
  have t0: "total demo_start + 1 < 2" by (simp add: demo_start_def)
  note t = process_rows_rate_limit[of demo_env demo_args ?T 2 demo_row demo_start "projr ?p"
      demo_start "[Map.empty, demo_row]" 2 "projr ?r"]
  from t h nv have 1: "slept (trace (rs_world (projr ?r))) = []"
    by (simp add: demo_start_def)
  from t e have 2: "interval demo_args = 3" by blast
  from t p v t0 e obtain tr where "trace (rs_world (projr ?p)) = tr @ [Sleep (60 / max 20 (1 / 10))]"
    by auto
  then have 3: "last (trace (rs_world (projr ?p))) = Sleep 3" by simp
  from 1 2 3 show ?thesis by blast
qed









end
